theory Spec2Isabelle
  imports Main
begin

section \<open>Data model (src/types.ts)\<close>

text \<open>
  \<^verbatim>\<open>CellColor = string | null\<close>, \<^verbatim>\<open>Grid = CellColor[][]\<close>, indexed \<^verbatim>\<open>grid[y][x]\<close>.
  A \<^verbatim>\<open>Shape\<close> has an id, a matrix of numbers (\<^verbatim>\<open>1 for block, 0 for empty\<close>,
  indexed \<^verbatim>\<open>matrix[y][x]\<close>) and a color. The numbers of the program are small integers
  throughout, so a JavaScript number is an \<open>int\<close> here.
\<close>

type_synonym CellColor = "string option"

type_synonym Grid = "CellColor list list"

type_synonym Matrix = "int list list"

record Shape =
  shape_id :: string
  matrix :: Matrix
  color :: string

section \<open>Constants and the shape catalog (src/unnamed/part\_000, imported as ./constants)\<close>

definition GRID_SIZE :: nat where
  "GRID_SIZE = 8"

definition COST_ROTATE :: int where
  "COST_ROTATE = 2"

definition SHAPE_TEMPLATES :: "Matrix list" where
  "SHAPE_TEMPLATES =
    [ [[1]],
      [[1, 1]],
      [[1], [1]],
      [[1, 1, 1]],
      [[1], [1], [1]],
      [[1, 1, 1, 1]],
      [[1], [1], [1], [1]],
      [[1, 1], [1, 1]],
      [[1, 1, 1], [1, 1, 1], [1, 1, 1]],
      [[1, 0], [1, 0], [1, 1]],
      [[0, 1], [0, 1], [1, 1]],
      [[1, 1, 1], [1, 0, 0]],
      [[1, 1, 1], [0, 1, 0]],
      [[0, 1, 0], [1, 1, 1]],
      [[1, 1, 0], [0, 1, 1]],
      [[0, 1, 1], [1, 1, 0]] ]"

definition COLORS :: "string list" where
  "COLORS = [''#06b6d4'', ''#8b5cf6'', ''#f43f5e'', ''#10b981'', ''#f59e0b'']"

text \<open>
  \<^verbatim>\<open>generateRandomShape\<close> calls \<^verbatim>\<open>Math.random()\<close> three times. The three results are the
  input of the model: \<open>templateIx\<close> is \<^verbatim>\<open>Math.floor(Math.random() * SHAPE_TEMPLATES.length)\<close>,
  \<open>colorIx\<close> is \<^verbatim>\<open>Math.floor(Math.random() * COLORS.length)\<close> and \<open>drawnId\<close> is
  \<^verbatim>\<open>Math.random().toString(36).substr(2, 9)\<close>. \<^verbatim>\<open>Math.random()\<close> lies in [0, 1), so the two
  indices are below the lengths of their tables: \<open>validDraw\<close>.
\<close>

record Draw =
  templateIx :: nat
  colorIx :: nat
  drawnId :: string

definition validDraw :: "Draw \<Rightarrow> bool" where
  "validDraw d \<longleftrightarrow> templateIx d < length SHAPE_TEMPLATES \<and> colorIx d < length COLORS"

definition generateRandomShape :: "Draw \<Rightarrow> Shape" where
  "generateRandomShape d =
    (let matrix = SHAPE_TEMPLATES ! templateIx d;
         color = COLORS ! colorIx d
     in \<lparr> shape_id = drawnId d, matrix = matrix, color = color \<rparr>)"

definition createEmptyGrid :: Grid where
  "createEmptyGrid = replicate GRID_SIZE (replicate GRID_SIZE None)"

section \<open>The game logic module (./services/gameLogic)\<close>

text \<open>
  \<^verbatim>\<open>App.tsx\<close> imports \<^verbatim>\<open>canPlacePiece\<close>, \<^verbatim>\<open>placePiece\<close>, \<^verbatim>\<open>checkLines\<close>, \<^verbatim>\<open>checkGameOver\<close>,
  \<^verbatim>\<open>rotateMatrix\<close> and \<^verbatim>\<open>calculateScore\<close> from \<^verbatim>\<open>./services/gameLogic\<close>, a module that is not among
  the sources. The handlers of \<^verbatim>\<open>App.tsx\<close> are therefore modelled over a parameter \<open>L\<close> that
  holds these six functions; \<^verbatim>\<open>checkLines\<close> returns the pair of \<^verbatim>\<open>newGrid\<close> and \<^verbatim>\<open>linesCleared\<close>.
  Theorems stated for every \<open>L\<close> hold whatever the module computes.
\<close>

record GameLogic =
  canPlacePiece :: "Grid \<Rightarrow> Shape \<Rightarrow> int \<Rightarrow> int \<Rightarrow> bool"
  placePiece :: "Grid \<Rightarrow> Shape \<Rightarrow> int \<Rightarrow> int \<Rightarrow> Grid"
  checkLines :: "Grid \<Rightarrow> Grid \<times> int"
  checkGameOver :: "Grid \<Rightarrow> Shape list \<Rightarrow> Shape option \<Rightarrow> bool"
  rotateMatrix :: "Matrix \<Rightarrow> Matrix"
  calculateScore :: "int \<Rightarrow> int \<Rightarrow> int"

section \<open>The state of the App component (src/App.tsx)\<close>

text \<open>
  Shapes are JavaScript objects: \<^verbatim>\<open>availablePieces\<close>, \<^verbatim>\<open>holdPiece\<close> and \<^verbatim>\<open>dragState.piece\<close> hold
  references, and \<^verbatim>\<open>handleRotate\<close> assigns to a field of a referenced object. The model keeps
  an object store: \<open>heap\<close> maps an address to the object stored there, and the addresses from
  \<open>nextRef\<close> on are not allocated yet. A matrix is kept by value inside its object: the
  handlers never write into a matrix array, they only replace the \<^verbatim>\<open>matrix\<close> field.

  The pixel coordinates of a drag, the hint text and the copy of the high score in
  \<^verbatim>\<open>localStorage\<close> are left out. \<open>timers\<close> holds the callbacks registered by \<^verbatim>\<open>setTimeout\<close>
  that have not run yet, each with the values its closure captured.
\<close>

type_synonym ref = nat

datatype GamePhase = Start | Playing | Gameover

datatype Source = Pool nat | Hold

record DragState =
  dragPiece :: ref
  sourceIndex :: Source

record Timer =
  timerGrid :: Grid
  timerPieces :: "ref list"
  timerHold :: "ref option"

text \<open>
  A handler is a closure of one render of the component: it reads \<^verbatim>\<open>grid\<close>,
  \<^verbatim>\<open>availablePieces\<close>, \<^verbatim>\<open>holdPiece\<close>, \<^verbatim>\<open>combo\<close> and \<^verbatim>\<open>highScore\<close> as constants of that
  render. \<open>Render\<close> holds these five values as a closure sees them.

  The handlers that the JSX attaches (\<^verbatim>\<open>onClick\<close>, \<^verbatim>\<open>onPointerDown\<close>) are those of the latest
  render. The window's \<^verbatim>\<open>pointermove\<close> and \<^verbatim>\<open>pointerup\<close> listeners are registered by an effect
  with the dependencies \<^verbatim>\<open>[dragState, grid, dropPreview, isHoveringHold]\<close>: they stay those of
  the render in which one of the four last changed. \<open>listener\<close> is what that render saw.
\<close>

record Render =
  seenGrid :: Grid
  seenPieces :: "ref list"
  seenHold :: "ref option"
  seenCombo :: int
  seenHighScore :: int

record GameState =
  heap :: "ref \<Rightarrow> Shape"
  nextRef :: ref
  phase :: GamePhase
  grid :: Grid
  availablePieces :: "ref list"
  holdPiece :: "ref option"
  selectedPieceIndex :: "nat option"
  score :: int
  highScore :: int
  keys :: int
  combo :: int
  dragState :: "DragState option"
  dropPreview :: "(int \<times> int) option"
  isHoveringHold :: bool
  timers :: "Timer list"
  listener :: Render

text \<open>What a closure of the render of the state \<open>s\<close> sees.\<close>

definition render :: "GameState \<Rightarrow> Render" where
  "render s =
    \<lparr> seenGrid = grid s, seenPieces = availablePieces s, seenHold = holdPiece s,
      seenCombo = combo s, seenHighScore = highScore s \<rparr>"

text \<open>The effect runs again: the window's listeners become those of the render of \<open>s\<close>.\<close>

definition registerListeners :: "GameState \<Rightarrow> GameState" where
  "registerListeners s = s\<lparr> listener := render s \<rparr>"

text \<open>
  After a handler has run the component renders again, and the effect runs again when the
  handler gave one of its four dependencies a new value.
\<close>

definition rerender :: "bool \<Rightarrow> GameState \<Rightarrow> GameState" where
  "rerender dependencyChanged s = (if dependencyChanged then registerListeners s else s)"

datatype fault = TypeError | SparseArray

text \<open>A new object: a literal, \<^verbatim>\<open>{ ...obj }\<close> or \<^verbatim>\<open>JSON.parse(JSON.stringify(obj))\<close>.\<close>

definition alloc :: "Shape \<Rightarrow> GameState \<Rightarrow> ref \<times> GameState" where
  "alloc sh s = (nextRef s, s\<lparr> heap := (heap s)(nextRef s := sh), nextRef := Suc (nextRef s) \<rparr>)"

text \<open>\<^verbatim>\<open>xs[i]\<close> is \<^verbatim>\<open>undefined\<close> beyond the end of the array.\<close>

definition arrayGet :: "'a list \<Rightarrow> nat \<Rightarrow> 'a option" where
  "arrayGet xs i = (if i < length xs then Some (xs ! i) else None)"

text \<open>
  \<^verbatim>\<open>xs[i] = v\<close> on a copy of the array. At \<open>i = length xs\<close> JavaScript appends; beyond that it
  leaves holes, an array that \<^verbatim>\<open>Shape[]\<close> does not describe: the model stops there with
  \<open>SparseArray\<close>.
\<close>

definition arraySet :: "'a list \<Rightarrow> nat \<Rightarrow> 'a \<Rightarrow> fault + 'a list" where
  "arraySet xs i v =
    (if i < length xs then Inr (xs[i := v])
     else if i = length xs then Inr (xs @ [v])
     else Inl SparseArray)"

text \<open>\<^verbatim>\<open>xs.filter((_, i) => i !== sourceIndex)\<close>\<close>

definition removeIndex :: "nat \<Rightarrow> 'a list \<Rightarrow> 'a list" where
  "removeIndex i xs = map snd (filter (\<lambda>(j, _). j \<noteq> i) (enumerate 0 xs))"

text \<open>\<^verbatim>\<open>piece.matrix.flat().reduce((acc, v) => acc + v, 0)\<close>\<close>

definition blockCount :: "Shape \<Rightarrow> int" where
  "blockCount piece = foldl (\<lambda>acc v. acc + v) 0 (concat (matrix piece))"

section \<open>The handlers of the App component (src/App.tsx)\<close>

text \<open>
  A handler reads the constants of its render and queues updates, which React applies
  together once the handler has returned. An update by a function
  (\<^verbatim>\<open>setKeys(k => k + earnedKeys)\<close>) is applied to the value the state has then; an update by
  a value replaces it. The handlers that can run as closures of an older render,
  \<^verbatim>\<open>spawnPieces\<close>, \<^verbatim>\<open>handlePlacePiece\<close> and \<^verbatim>\<open>handleHoldDrop\<close>, take the render \<open>c\<close> of their
  closure and the state \<open>s\<close> that the updates are applied to. The other handlers are only
  ever attached by the JSX, so their render is that of the state they run in. The
  \<^verbatim>\<open>setTimeout\<close> callback of \<^verbatim>\<open>spawnPieces\<close> captures \<^verbatim>\<open>grid\<close> and \<^verbatim>\<open>holdPiece\<close> of the closure.
\<close>

definition spawnPieces :: "Render \<Rightarrow> Draw \<times> Draw \<times> Draw \<Rightarrow> GameState \<Rightarrow> GameState" where
  "spawnPieces c ds s =
    (case ds of (d1, d2, d3) \<Rightarrow>
      (case alloc (generateRandomShape d1) s of (r1, s1) \<Rightarrow>
      (case alloc (generateRandomShape d2) s1 of (r2, s2) \<Rightarrow>
      (case alloc (generateRandomShape d3) s2 of (r3, s3) \<Rightarrow>
        let newPieces = [r1, r2, r3]
        in s3\<lparr> availablePieces := newPieces,
                selectedPieceIndex := None,
                timers := timers s3 @
                  [\<lparr> timerGrid = seenGrid c, timerPieces = newPieces, timerHold = seenHold c \<rparr>] \<rparr>))))"

definition startGame :: "GameState \<Rightarrow> Draw \<times> Draw \<times> Draw \<Rightarrow> GameState" where
  "startGame rs ds =
    (let s = rs\<lparr> grid := createEmptyGrid, score := 0, keys := 3, combo := 1, holdPiece := None \<rparr>;
         s = spawnPieces (render rs) ds s
     in s\<lparr> phase := Playing \<rparr>)"

text \<open>The callback of the timer set by \<^verbatim>\<open>spawnPieces\<close>, run on the oldest pending timer.\<close>

definition timeoutFires :: "GameLogic \<Rightarrow> GameState \<Rightarrow> GameState" where
  "timeoutFires L rs =
    (case timers rs of
       [] \<Rightarrow> rs
     | t # ts \<Rightarrow>
        let s = rs\<lparr> timers := ts \<rparr>
        in if checkGameOver L (timerGrid t) (map (heap rs) (timerPieces t))
                (map_option (heap rs) (timerHold t))
           then s\<lparr> phase := Gameover \<rparr> else s)"

definition handleDragStart :: "GameState \<Rightarrow> ref \<Rightarrow> Source \<Rightarrow> GameState" where
  "handleDragStart rs piece src =
    (if phase rs \<noteq> Playing then rs
     else case alloc (heap rs piece) rs of (copy, s) \<Rightarrow>
       s\<lparr> dragState := Some \<lparr> dragPiece = copy, sourceIndex = src \<rparr>,
          selectedPieceIndex := (case src of Pool i \<Rightarrow> Some i | Hold \<Rightarrow> None) \<rparr>)"

text \<open>
  Where the pointer is, as \<^verbatim>\<open>handlePointerMove\<close> computes it from the pixel coordinates:
  inside the board rectangle, at the cell \<open>(gx, gy)\<close> for the origin of the dragged shape;
  inside the hold button; or elsewhere. The board and the hold button are rendered, and
  their refs set, only when the phase is not \<^verbatim>\<open>'start'\<close>; they are separate elements of the
  page, so a pointer inside the board is not inside the hold button.

  \<^verbatim>\<open>handlePointerMove\<close> and \<^verbatim>\<open>handlePointerUp\<close> are the window's listeners: their render is
  \<open>listener s\<close>. Of the state they read \<^verbatim>\<open>dragState\<close>, \<^verbatim>\<open>dropPreview\<close> and \<^verbatim>\<open>isHoveringHold\<close>
  directly, three dependencies of the effect: the listeners are registered again whenever
  one of them changes, so they see the current values, which the model reads from \<open>s\<close>.
\<close>

datatype PointerTarget = OverGrid int int | OverHold | Elsewhere

definition handlePointerMove :: "GameLogic \<Rightarrow> GameState \<Rightarrow> PointerTarget \<Rightarrow> GameState" where
  "handlePointerMove L s target =
    (case dragState s of
       None \<Rightarrow> s
     | Some d \<Rightarrow>
        (case target of
           OverGrid gx gy \<Rightarrow>
             if phase s \<noteq> Start \<and> gx \<ge> -2 \<and> gx < int GRID_SIZE \<and> gy \<ge> -2 \<and> gy < int GRID_SIZE
                \<and> canPlacePiece L (seenGrid (listener s)) (heap s (dragPiece d)) gx gy
             then s\<lparr> dropPreview := Some (gx, gy), isHoveringHold := False \<rparr>
             else s\<lparr> dropPreview := None, isHoveringHold := False \<rparr>
         | OverHold \<Rightarrow>
             if phase s \<noteq> Start
             then s\<lparr> isHoveringHold := True, dropPreview := None \<rparr>
             else s\<lparr> dropPreview := None, isHoveringHold := False \<rparr>
         | Elsewhere \<Rightarrow> s\<lparr> dropPreview := None, isHoveringHold := False \<rparr>))"

text \<open>
  \<^verbatim>\<open>handlePlacePiece\<close> only reads the fields of \<^verbatim>\<open>piece\<close>, so the model takes the object itself.
  The lines that build \<^verbatim>\<open>newAvailable\<close> and \<^verbatim>\<open>remaining\<close> compute values that are never used.
  \<^verbatim>\<open>grid\<close>, \<^verbatim>\<open>combo\<close>, \<^verbatim>\<open>highScore\<close>, \<^verbatim>\<open>availablePieces\<close> and \<^verbatim>\<open>holdPiece\<close> are read from the
  closure \<open>c\<close>; keys, combo and score are updated by functions of their current value.
\<close>

definition handlePlacePiece ::
  "GameLogic \<Rightarrow> Render \<Rightarrow> GameState \<Rightarrow> Shape \<Rightarrow> int \<Rightarrow> int \<Rightarrow> Source \<Rightarrow> Draw \<times> Draw \<times> Draw
    \<Rightarrow> GameState" where
  "handlePlacePiece L c rs piece x y src ds =
    (let nextGrid = placePiece L (seenGrid c) piece x y;
         turnPoints = blockCount piece * 10
     in case checkLines L nextGrid of (clearedGrid, linesCleared) \<Rightarrow>
       let turnPoints = (if linesCleared > 0
                         then turnPoints + calculateScore L linesCleared (seenCombo c)
                         else turnPoints);
           s = (if linesCleared > 0
                then rs\<lparr> keys := keys rs + linesCleared, combo := combo rs + 1 \<rparr>
                else rs\<lparr> combo := 1 \<rparr>);
           newScore = score s + turnPoints;
           s = s\<lparr> score := newScore,
                  highScore := (if newScore > seenHighScore c then newScore else highScore s) \<rparr>;
           s = s\<lparr> grid := clearedGrid \<rparr>
       in case src of
            Hold \<Rightarrow> s\<lparr> holdPiece := None \<rparr>
          | Pool i \<Rightarrow>
             let filtered = removeIndex i (seenPieces c)
             in if length filtered = 0 then spawnPieces c ds s
                else
                  let s = s\<lparr> availablePieces := filtered, selectedPieceIndex := None \<rparr>
                  in if checkGameOver L clearedGrid (map (heap rs) filtered)
                          (map_option (heap rs) (seenHold c))
                     then s\<lparr> phase := Gameover \<rparr> else s)"

text \<open>
  \<^verbatim>\<open>handleHoldDrop\<close> stores the reference \<^verbatim>\<open>piece\<close>. \<^verbatim>\<open>handleHoldButton\<close> passes
  \<^verbatim>\<open>availablePieces[selectedPieceIndex]\<close>, which is \<^verbatim>\<open>undefined\<close> beyond the end of the array:
  \<open>None\<close> here, as for the \<^verbatim>\<open>null\<close> of an empty hold slot (the source tests both by truthiness).
  \<^verbatim>\<open>holdPiece\<close> and \<^verbatim>\<open>availablePieces\<close> are read from the closure \<open>c\<close>.
\<close>

definition handleHoldDrop ::
  "Render \<Rightarrow> GameState \<Rightarrow> ref option \<Rightarrow> Source \<Rightarrow> Draw \<times> Draw \<times> Draw \<Rightarrow> fault + GameState" where
  "handleHoldDrop c rs piece src ds =
    (case src of
       Hold \<Rightarrow> Inr rs
     | Pool i \<Rightarrow>
        let currentHold = seenHold c;
            s = rs\<lparr> holdPiece := piece \<rparr>
        in case currentHold of
             Some h \<Rightarrow>
               (case arraySet (seenPieces c) i h of
                  Inl f \<Rightarrow> Inl f
                | Inr newAvailable \<Rightarrow>
                    Inr (s\<lparr> availablePieces := newAvailable, selectedPieceIndex := None \<rparr>))
           | None \<Rightarrow>
               let newAvailable = removeIndex i (seenPieces c);
                   s = (if length newAvailable = 0 then spawnPieces c ds s
                        else s\<lparr> availablePieces := newAvailable \<rparr>)
               in Inr (s\<lparr> selectedPieceIndex := None \<rparr>))"

text \<open>\<^verbatim>\<open>handleHoldButton\<close> is the \<^verbatim>\<open>onClick\<close> of the hold button: a closure of the latest render.\<close>

definition handleHoldButton :: "GameState \<Rightarrow> Draw \<times> Draw \<times> Draw \<Rightarrow> fault + GameState" where
  "handleHoldButton rs ds =
    (case selectedPieceIndex rs of
       None \<Rightarrow> Inr rs
     | Some i \<Rightarrow> handleHoldDrop (render rs) rs (arrayGet (availablePieces rs) i) (Pool i) ds)"

text \<open>
  \<^verbatim>\<open>handlePointerUp\<close> calls the \<^verbatim>\<open>handlePlacePiece\<close> and the \<^verbatim>\<open>handleHoldDrop\<close> of its own
  render, the one the listeners were registered in.
\<close>

definition handlePointerUp :: "GameLogic \<Rightarrow> GameState \<Rightarrow> Draw \<times> Draw \<times> Draw \<Rightarrow> fault + GameState" where
  "handlePointerUp L s ds =
    (case dragState s of
       None \<Rightarrow> Inr s
     | Some d \<Rightarrow>
        let piece = dragPiece d;
            src = sourceIndex d;
            dropped =
              (case dropPreview s of
                 Some (x, y) \<Rightarrow> Inr (handlePlacePiece L (listener s) s (heap s piece) x y src ds)
               | None \<Rightarrow>
                   if isHoveringHold s then handleHoldDrop (listener s) s (Some piece) src ds
                   else Inr s)
        in case dropped of
             Inl f \<Rightarrow> Inl f
           | Inr s' \<Rightarrow> Inr (s'\<lparr> dragState := None, dropPreview := None, isHoveringHold := False \<rparr>))"

text \<open>
  \<^verbatim>\<open>handleRotate\<close>: \<^verbatim>\<open>newPieces\<close> is a copy of the array, holding the same references, and
  \<^verbatim>\<open>piece.matrix = rotateMatrix(piece.matrix)\<close> writes into the object that \<^verbatim>\<open>piece\<close> refers to.
  Reading \<^verbatim>\<open>.matrix\<close> of \<^verbatim>\<open>undefined\<close> throws a TypeError.
\<close>

definition handleRotate :: "GameLogic \<Rightarrow> GameState \<Rightarrow> fault + GameState" where
  "handleRotate L rs =
    (case selectedPieceIndex rs of
       None \<Rightarrow> Inr rs
     | Some i \<Rightarrow>
        if keys rs < COST_ROTATE then Inr rs
        else
          let newPieces = availablePieces rs
          in case arrayGet newPieces i of
               None \<Rightarrow> Inl TypeError
             | Some piece \<Rightarrow>
                 let obj = heap rs piece;
                     h = (heap rs)(piece := obj\<lparr> matrix := rotateMatrix L (matrix obj) \<rparr>)
                 in Inr (rs\<lparr> heap := h, availablePieces := newPieces,
                             keys := keys rs - COST_ROTATE \<rparr>))"

text \<open>\<^verbatim>\<open>handleRotateHold\<close>: \<^verbatim>\<open>{ ...holdPiece }\<close> is a new object, and the field of the new object is written.\<close>

definition handleRotateHold :: "GameLogic \<Rightarrow> GameState \<Rightarrow> GameState" where
  "handleRotateHold L rs =
    (case holdPiece rs of
       None \<Rightarrow> rs
     | Some hp \<Rightarrow>
        if keys rs < COST_ROTATE then rs
        else case alloc (heap rs hp) rs of (newHold, s) \<Rightarrow>
          let obj = heap s newHold;
              h = (heap s)(newHold := obj\<lparr> matrix := rotateMatrix L (matrix obj) \<rparr>)
          in s\<lparr> heap := h, holdPiece := Some newHold, keys := keys rs - COST_ROTATE \<rparr>)"

section \<open>The component as a state machine\<close>

text \<open>
  The events the rendered page can deliver, each with the handler the JSX attaches:
  the two buttons that call \<^verbatim>\<open>startGame\<close>; a pointer-down on a rendered piece (a pool slot
  that exists, or the hold slot when it is occupied); the window's pointer-move and
  pointer-up listeners; the hold button; the Flip button; the small rotate control of the
  hold slot; Back to Menu; and a pending timer running. A pointer-down on a piece that is
  not rendered cannot happen and leaves the state as it is. Otherwise the model admits more
  than a browser delivers: it does not assume that clicks wait for a drag to end, nor that
  the start screen or the game-over overlay keeps the controls beneath it from being
  clicked. Each handler still applies its own guards.

  The window's listeners are registered again after the handlers that give a dependency of
  the effect a new value: \<^verbatim>\<open>startGame\<close> (\<^verbatim>\<open>setGrid\<close> with a new array), \<^verbatim>\<open>handleDragStart\<close> when
  the phase is \<^verbatim>\<open>'playing'\<close> (\<^verbatim>\<open>setDragState\<close> with a new object), and \<^verbatim>\<open>handlePointerMove\<close> and
  \<^verbatim>\<open>handlePointerUp\<close> when a drag is active (\<^verbatim>\<open>setDragState\<close> with a new object, and with
  \<^verbatim>\<open>null\<close>). The hold button, the two rotate controls, Back to Menu and the timer change none
  of the four dependencies, and neither do handlers that return at their first guard: the
  listeners stay those of the older render.

  \<open>initialState\<close> is the state of the mounted component: the initial values of the
  \<^verbatim>\<open>useState\<close> calls, with the high score read from \<^verbatim>\<open>localStorage\<close> (0 when nothing is
  stored), and no object allocated. The listeners are those of the first render, in which
  the high score was still 0.
\<close>

datatype Event =
    ClickStart "Draw \<times> Draw \<times> Draw"
  | PointerDown Source
  | PointerMove PointerTarget
  | PointerUp "Draw \<times> Draw \<times> Draw"
  | ClickHold "Draw \<times> Draw \<times> Draw"
  | ClickFlip
  | ClickFlipHold
  | ClickMenu
  | Timeout

definition initialState :: "int \<Rightarrow> GameState" where
  "initialState storedHighScore =
    \<lparr> heap = (\<lambda>_. \<lparr> shape_id = [], matrix = [], color = [] \<rparr>),
      nextRef = 0,
      phase = Start,
      grid = createEmptyGrid,
      availablePieces = [],
      holdPiece = None,
      selectedPieceIndex = None,
      score = 0,
      highScore = storedHighScore,
      keys = 0,
      combo = 1,
      dragState = None,
      dropPreview = None,
      isHoveringHold = False,
      timers = [],
      listener = \<lparr> seenGrid = createEmptyGrid, seenPieces = [], seenHold = None,
                   seenCombo = 1, seenHighScore = 0 \<rparr> \<rparr>"

fun step :: "GameLogic \<Rightarrow> GameState \<Rightarrow> Event \<Rightarrow> fault + GameState" where
  "step L s (ClickStart ds) = Inr (rerender True (startGame s ds))"
| "step L s (PointerDown (Pool i)) =
     (case arrayGet (availablePieces s) i of
        None \<Rightarrow> Inr s
      | Some piece \<Rightarrow> Inr (rerender (phase s = Playing) (handleDragStart s piece (Pool i))))"
| "step L s (PointerDown Hold) =
     (case holdPiece s of
        None \<Rightarrow> Inr s
      | Some piece \<Rightarrow> Inr (rerender (phase s = Playing) (handleDragStart s piece Hold)))"
| "step L s (PointerMove target) =
     Inr (rerender (dragState s \<noteq> None) (handlePointerMove L s target))"
| "step L s (PointerUp ds) =
     (case handlePointerUp L s ds of
        Inl f \<Rightarrow> Inl f
      | Inr s' \<Rightarrow> Inr (rerender (dragState s \<noteq> None) s'))"
| "step L s (ClickHold ds) = handleHoldButton s ds"
| "step L s ClickFlip = handleRotate L s"
| "step L s ClickFlipHold = Inr (handleRotateHold L s)"
| "step L s ClickMenu = Inr (s\<lparr> phase := Start \<rparr>)"
| "step L s Timeout = Inr (timeoutFires L s)"

fun run :: "GameLogic \<Rightarrow> GameState \<Rightarrow> Event list \<Rightarrow> fault + GameState" where
  "run L s [] = Inr s"
| "run L s (e # es) = (case step L s e of Inl f \<Rightarrow> Inl f | Inr s' \<Rightarrow> run L s' es)"

section \<open>An instance of the game logic, from the specification\<close>

text \<open>
  The theorems below quantify over the game logic; concrete runs need one. The following
  definitions give the one that the specification describes (sections 4.1 to 4.4).
\<close>

text \<open>
  Modelled from the spec: the filled cells of a shape, as offsets \<open>(dx, dy)\<close>; the module
  \<^verbatim>\<open>services/gameLogic\<close> that holds the functions of this section is missing.
\<close>

definition filledOffsets :: "Matrix \<Rightarrow> (int \<times> int) list" where
  "filledOffsets m =
    concat (map (\<lambda>(dy, row).
      concat (map (\<lambda>(dx, v). if v = 1 then [(int dx, int dy)] else []) (enumerate 0 row)))
      (enumerate 0 m))"

text \<open>
  Modelled from the spec: \<^verbatim>\<open>canPlace(grid, shape, originX, originY)\<close> (missing
  \<^verbatim>\<open>canPlacePiece\<close>): every filled cell maps into the grid and onto an empty cell.
\<close>

definition canPlace_spec :: "Grid \<Rightarrow> Shape \<Rightarrow> int \<Rightarrow> int \<Rightarrow> bool" where
  "canPlace_spec g sh ox oy =
    list_all (\<lambda>(dx, dy).
        0 \<le> ox + dx \<and> ox + dx < int GRID_SIZE \<and> 0 \<le> oy + dy \<and> oy + dy < int GRID_SIZE \<and>
        g ! nat (oy + dy) ! nat (ox + dx) = None)
      (filledOffsets (matrix sh))"

text \<open>
  Modelled from the spec: \<^verbatim>\<open>applyPlacement(grid, shape, originX, originY)\<close> (missing
  \<^verbatim>\<open>placePiece\<close>): a new grid with every filled shape cell set to the shape's color. The
  spec leaves the result open where \<^verbatim>\<open>canPlace\<close> does not hold; here the grid is returned
  as it is.
\<close>

definition applyPlacement_spec :: "Grid \<Rightarrow> Shape \<Rightarrow> int \<Rightarrow> int \<Rightarrow> Grid" where
  "applyPlacement_spec g sh ox oy =
    (if canPlace_spec g sh ox oy
     then fold (\<lambda>(dx, dy) g'.
            g'[nat (oy + dy) := (g' ! nat (oy + dy))[nat (ox + dx) := Some (color sh)]])
          (filledOffsets (matrix sh)) g
     else g)"

text \<open>
  Modelled from the spec: \<^verbatim>\<open>clearCompletedLines(grid)\<close> (missing \<^verbatim>\<open>checkLines\<close>): rows and
  columns are judged on the grid before any clearing, every cell of a complete row or
  column is cleared, and \<^verbatim>\<open>linesCleared\<close> counts the complete rows plus the complete columns.
\<close>

definition clearCompletedLines_spec :: "Grid \<Rightarrow> Grid \<times> int" where
  "clearCompletedLines_spec g =
    (let n = GRID_SIZE;
         fullRows = filter (\<lambda>y. list_all (\<lambda>x. g ! y ! x \<noteq> None) [0..<n]) [0..<n];
         fullCols = filter (\<lambda>x. list_all (\<lambda>y. g ! y ! x \<noteq> None) [0..<n]) [0..<n]
     in (map (\<lambda>y. map (\<lambda>x. if y \<in> set fullRows \<or> x \<in> set fullCols then None else g ! y ! x)
                 [0..<n]) [0..<n],
         int (length fullRows) + int (length fullCols)))"

text \<open>
  Modelled from the spec: \<^verbatim>\<open>rotate(matrix)\<close> (missing \<^verbatim>\<open>rotateMatrix\<close>): a quarter turn
  clockwise; the result has the transposed dimensions.
\<close>

definition rotate_spec :: "Matrix \<Rightarrow> Matrix" where
  "rotate_spec m = map rev (transpose m)"

text \<open>
  Modelled from the spec: \<^verbatim>\<open>lineClearScore(linesCleared, combo)\<close> (missing
  \<^verbatim>\<open>calculateScore\<close>): 0 without a line, otherwise \<open>base linesCleared * combo\<close>. The spec
  leaves the reward table \<open>base\<close> open, so it is a parameter.
\<close>

definition lineClearScore_spec :: "(int \<Rightarrow> int) \<Rightarrow> int \<Rightarrow> int \<Rightarrow> int" where
  "lineClearScore_spec base linesCleared c = (if linesCleared = 0 then 0 else base linesCleared * c)"

text \<open>
  Modelled from the spec: \<^verbatim>\<open>isGameOver(grid, pool, holdPiece)\<close> (missing \<^verbatim>\<open>checkGameOver\<close>):
  no candidate, the pool shapes and the hold piece if present, fits at any origin of the
  grid in any of its four rotations.
\<close>

definition isGameOver_spec :: "Grid \<Rightarrow> Shape list \<Rightarrow> Shape option \<Rightarrow> bool" where
  "isGameOver_spec g pool hp =
    (\<not> list_ex (\<lambda>sh.
         list_ex (\<lambda>k.
           list_ex (\<lambda>oy.
             list_ex (\<lambda>ox. canPlace_spec g (sh\<lparr> matrix := (rotate_spec ^^ k) (matrix sh) \<rparr>)
                                (int ox) (int oy))
               [0..<GRID_SIZE])
             [0..<GRID_SIZE])
           [0..<4])
       (pool @ (case hp of None \<Rightarrow> [] | Some h \<Rightarrow> [h])))"

text \<open>
  Modelled from the spec: the module \<^verbatim>\<open>services/gameLogic\<close> as a whole, each missing
  function by the function of the spec that describes it.
\<close>

definition specLogic :: "(int \<Rightarrow> int) \<Rightarrow> GameLogic" where
  "specLogic base =
    \<lparr> canPlacePiece = canPlace_spec,
      placePiece = applyPlacement_spec,
      checkLines = clearCompletedLines_spec,
      checkGameOver = isGameOver_spec,
      rotateMatrix = rotate_spec,
      calculateScore = lineClearScore_spec base \<rparr>"

section \<open>Shape invariants\<close>

definition binaryMatrix :: "Matrix \<Rightarrow> bool" where
  "binaryMatrix m \<longleftrightarrow> list_all (list_all (\<lambda>v. v = 0 \<or> v = 1)) m"

text \<open>A cell is filled when its entry is 1 (the test \<^verbatim>\<open>piece.matrix[y][x] === 1\<close> of the source).\<close>

definition filledCellCount :: "Matrix \<Rightarrow> nat" where
  "filledCellCount m = length (filter (\<lambda>v. v = 1) (concat m))"

definition rowCount :: "Matrix \<Rightarrow> nat" where
  "rowCount m = length m"

definition columnCount :: "Matrix \<Rightarrow> nat" where
  "columnCount m = (case m of [] \<Rightarrow> 0 | row # _ \<Rightarrow> length row)"

text \<open>
  The shape invariant of the data model, with the largest side as a parameter: binary
  entries, rows of equal length, a filled cell, and both sides between 1 and \<open>maxDim\<close>.
\<close>

definition shapeInvariant :: "nat \<Rightarrow> Matrix \<Rightarrow> bool" where
  "shapeInvariant maxDim m \<longleftrightarrow>
     binaryMatrix m \<and>
     list_all (\<lambda>row. length row = columnCount m) m \<and>
     1 \<le> filledCellCount m \<and>
     1 \<le> rowCount m \<and> rowCount m \<le> maxDim \<and>
     1 \<le> columnCount m \<and> columnCount m \<le> maxDim"

section \<open>Invariants of the component state\<close>

text \<open>The session state: score, high score, keys and combo.\<close>

definition sessionInv :: "GameState \<Rightarrow> bool" where
  "sessionInv s \<longleftrightarrow> 0 \<le> score s \<and> score s \<le> highScore s \<and> 0 \<le> keys s \<and> 1 \<le> combo s"

text \<open>
  The pool has at most three shapes, a selected index lies inside the pool, and the source
  index of a drag is at most 2 and at most the length of the pool (it can equal the length
  when the hold button took the dragged slot out of the pool during the drag, which also
  clears the selection). The same bounds hold of the pool that the window's listeners see.
\<close>

definition poolInv :: "GameState \<Rightarrow> bool" where
  "poolInv s \<longleftrightarrow>
     length (availablePieces s) \<le> 3 \<and>
     (\<forall>i. selectedPieceIndex s = Some i \<longrightarrow> i < length (availablePieces s)) \<and>
     (\<forall>d i. dragState s = Some d \<and> sourceIndex d = Pool i \<longrightarrow>
        i < 3 \<and> i \<le> length (availablePieces s) \<and>
        (selectedPieceIndex s \<noteq> None \<longrightarrow> i < length (availablePieces s))) \<and>
     length (seenPieces (listener s)) \<le> 3 \<and>
     (\<forall>d i. dragState s = Some d \<and> sourceIndex d = Pool i \<longrightarrow>
        i \<le> length (seenPieces (listener s)))"

text \<open>
  Every reference held by the state, or seen by the window's listeners, is allocated, and
  every allocated shape is binary.
\<close>

definition heapInv :: "GameState \<Rightarrow> bool" where
  "heapInv s \<longleftrightarrow>
     (\<forall>r \<in> set (availablePieces s). r < nextRef s) \<and>
     (\<forall>h. holdPiece s = Some h \<longrightarrow> h < nextRef s) \<and>
     (\<forall>d. dragState s = Some d \<longrightarrow> dragPiece d < nextRef s) \<and>
     (\<forall>r < nextRef s. binaryMatrix (matrix (heap s r))) \<and>
     (\<forall>r \<in> set (seenPieces (listener s)). r < nextRef s) \<and>
     (\<forall>h. seenHold (listener s) = Some h \<longrightarrow> h < nextRef s)"

text \<open>
  During a drag the window's listeners see the current combo and high score: both change
  only in \<^verbatim>\<open>startGame\<close> and \<^verbatim>\<open>handlePlacePiece\<close>, after which the listeners are registered again.
\<close>

definition listenerInv :: "GameState \<Rightarrow> bool" where
  "listenerInv s \<longleftrightarrow>
     (dragState s \<noteq> None \<longrightarrow>
        seenCombo (listener s) = combo s \<and> seenHighScore (listener s) = highScore s)"

text \<open>
  What the session invariants need from the missing module: a line score that is not
  negative (the spec asks for a score that does not decrease in \<^verbatim>\<open>linesCleared\<close> and is 0
  at 0), and a rotation that keeps a binary matrix binary.
\<close>

definition logicOk :: "GameLogic \<Rightarrow> bool" where
  "logicOk L \<longleftrightarrow>
     (\<forall>l c. 0 < l \<and> 1 \<le> c \<longrightarrow> 0 \<le> calculateScore L l c) \<and>
     (\<forall>m. binaryMatrix m \<longrightarrow> binaryMatrix (rotateMatrix L m))"

definition stateInv :: "GameState \<Rightarrow> bool" where
  "stateInv s \<longleftrightarrow> poolInv s \<and> heapInv s \<and> sessionInv s \<and> listenerInv s"

definition validDraws :: "Draw \<times> Draw \<times> Draw \<Rightarrow> bool" where
  "validDraws ds = (case ds of (d1, d2, d3) \<Rightarrow> validDraw d1 \<and> validDraw d2 \<and> validDraw d3)"

fun validEvent :: "Event \<Rightarrow> bool" where
  "validEvent (ClickStart ds) = validDraws ds"
| "validEvent (PointerUp ds) = validDraws ds"
| "validEvent (ClickHold ds) = validDraws ds"
| "validEvent _ = True"

fun startsGame :: "Event \<Rightarrow> bool" where
  "startsGame (ClickStart ds) = True"
| "startsGame _ = False"

section \<open>Quantities of a turn\<close>

text \<open>
  The \<^verbatim>\<open>linesCleared\<close> that \<^verbatim>\<open>handlePlacePiece\<close> obtains for a placement, from the grid of its
  closure.
\<close>

definition turnLinesCleared :: "GameLogic \<Rightarrow> Render \<Rightarrow> Shape \<Rightarrow> int \<Rightarrow> int \<Rightarrow> int" where
  "turnLinesCleared L c piece x y = snd (checkLines L (placePiece L (seenGrid c) piece x y))"

section \<open>Concrete states for the examples\<close>

definition demoLogic :: GameLogic where
  "demoLogic = specLogic (\<lambda>n. 100 * n)"

definition blankShape :: Shape where
  "blankShape = \<lparr> shape_id = [], matrix = [], color = [] \<rparr>"

definition dotShape :: Shape where
  "dotShape = \<lparr> shape_id = ''dot'', matrix = [[1]], color = ''#06b6d4'' \<rparr>"

definition line2Shape :: Shape where
  "line2Shape = \<lparr> shape_id = ''line2'', matrix = [[1, 1]], color = ''#8b5cf6'' \<rparr>"

definition squareShape :: Shape where
  "squareShape = \<lparr> shape_id = ''square'', matrix = [[1, 1, 1], [1, 1, 1], [1, 1, 1]],
                    color = ''#f43f5e'' \<rparr>"

definition elShape :: Shape where
  "elShape = \<lparr> shape_id = ''el'', matrix = [[1, 1, 1], [1, 0, 0]], color = ''#f59e0b'' \<rparr>"

text \<open>Four objects: a Line 2 at address 0, a dot at 1, a 3x3 square at 2 and an L at 3.\<close>

definition demoHeap :: "ref \<Rightarrow> Shape" where
  "demoHeap = (\<lambda>_. blankShape)(0 := line2Shape, 1 := dotShape, 2 := squareShape, 3 := elShape)"

text \<open>
  A state in play with the given grid, pool, hold slot and keys, nothing selected, and the
  window's listeners those of its own render.
\<close>

definition demoState :: "Grid \<Rightarrow> ref list \<Rightarrow> ref option \<Rightarrow> int \<Rightarrow> GameState" where
  "demoState g pool hp k =
    \<lparr> heap = demoHeap, nextRef = 4, phase = Playing, grid = g, availablePieces = pool,
      holdPiece = hp, selectedPieceIndex = None, score = 0, highScore = 0, keys = k,
      combo = 1, dragState = None, dropPreview = None, isHoveringHold = False, timers = [],
      listener = \<lparr> seenGrid = g, seenPieces = pool, seenHold = hp, seenCombo = 1,
                   seenHighScore = 0 \<rparr> \<rparr>"

text \<open>The Line 2, the dot and the square in the pool, the L in the hold slot, the Line 2 selected.\<close>

definition selectedState :: "int \<Rightarrow> GameState" where
  "selectedState k = (demoState createEmptyGrid [0, 1, 2] (Some 3) k)\<lparr> selectedPieceIndex := Some 0 \<rparr>"

text \<open>Row 0 filled except for the cell at x = 7, all other rows empty.\<close>

definition nearlyFullRowGrid :: Grid where
  "nearlyFullRowGrid =
    (replicate 7 (Some ''#10b981'') @ [None]) # replicate 7 (replicate 8 None)"

text \<open>
  Every cell filled except those with x + y = 7: each row and each column has exactly
  one hole, and no two holes are side by side.
\<close>

definition diagonalGrid :: Grid where
  "diagonalGrid =
    map (\<lambda>y. map (\<lambda>x. if x + y = 7 then None else Some ''#10b981'') [0..<8]) [0..<8]"

text \<open>The same with two more holes, at (0, 0) and at (7, 7).\<close>

definition diagonalGrid2 :: Grid where
  "diagonalGrid2 =
    map (\<lambda>y. map (\<lambda>x. if x + y = 7 \<or> (x = 0 \<and> y = 0) \<or> (x = 7 \<and> y = 7)
                      then None else Some ''#10b981'') [0..<8]) [0..<8]"

definition line2Draw :: Draw where
  "line2Draw = \<lparr> templateIx = 1, colorIx = 1, drawnId = ''n'' \<rparr>"

definition line2Draws :: "Draw \<times> Draw \<times> Draw" where
  "line2Draws = (line2Draw, line2Draw, line2Draw)"

definition dotDraw :: Draw where
  "dotDraw = \<lparr> templateIx = 0, colorIx = 0, drawnId = ''m'' \<rparr>"

definition dotDraws :: "Draw \<times> Draw \<times> Draw" where
  "dotDraws = (dotDraw, dotDraw, dotDraw)"

section \<open>Basic facts\<close>

lemma removeIndex_enumerate:
  "map snd (filter (\<lambda>(j, _). j \<noteq> n + i) (enumerate n xs)) = take i xs @ drop (Suc i) xs"
proof (induction xs arbitrary: n i)
  case Nil
  then show ?case by simp
next
  case (Cons a xs)
  show ?case
  proof (cases i)
    case 0
    have "filter (\<lambda>(j, _). j \<noteq> n) (enumerate (Suc n) xs) = enumerate (Suc n) xs"
      by (rule filter_True) (auto simp: in_set_enumerate_eq)
    with 0 show ?thesis by simp
  next
    case (Suc k)
    with Cons.IH [of "Suc n" k] show ?thesis by simp
  qed
qed

lemma removeIndex_eq: "removeIndex i xs = take i xs @ drop (Suc i) xs"
  using removeIndex_enumerate [of 0 i xs] by (simp add: removeIndex_def)

lemma length_removeIndex:
  "length (removeIndex i xs) = (if i < length xs then length xs - 1 else length xs)"
  by (auto simp: removeIndex_eq)

lemma set_removeIndex: "set (removeIndex i xs) \<subseteq> set xs"
  by (auto simp: removeIndex_eq dest: in_set_takeD in_set_dropD)

lemma foldl_plus_sum_list: "foldl (\<lambda>acc v. acc + v) a xs = a + sum_list xs" for a :: int
  by (induction xs arbitrary: a) auto

lemma binary_sum_list:
  "list_all (\<lambda>v. v = 0 \<or> v = 1) xs \<Longrightarrow> sum_list xs = int (length (filter (\<lambda>v. v = 1) xs))"
  for xs :: "int list"
  by (induction xs) auto

lemma binary_concat: "binaryMatrix m \<Longrightarrow> list_all (\<lambda>v. v = 0 \<or> v = 1) (concat m)"
  by (induction m) (auto simp: binaryMatrix_def)

lemma blockCount_binary:
  "binaryMatrix (matrix piece) \<Longrightarrow> blockCount piece = int (filledCellCount (matrix piece))"
  by (simp add: blockCount_def filledCellCount_def foldl_plus_sum_list binary_sum_list
      binary_concat)

lemma spawnPieces_frame [simp]:
  "score (spawnPieces rs ds s) = score s"
  "highScore (spawnPieces rs ds s) = highScore s"
  "keys (spawnPieces rs ds s) = keys s"
  "combo (spawnPieces rs ds s) = combo s"
  "grid (spawnPieces rs ds s) = grid s"
  "holdPiece (spawnPieces rs ds s) = holdPiece s"
  "phase (spawnPieces rs ds s) = phase s"
  "dragState (spawnPieces rs ds s) = dragState s"
  "dropPreview (spawnPieces rs ds s) = dropPreview s"
  "isHoveringHold (spawnPieces rs ds s) = isHoveringHold s"
  "listener (spawnPieces rs ds s) = listener s"
  by (simp_all add: spawnPieces_def alloc_def Let_def split: prod.splits)

lemma spawnPieces_pool [simp]:
  "availablePieces (spawnPieces rs ds s) = [nextRef s, Suc (nextRef s), Suc (Suc (nextRef s))]"
  "selectedPieceIndex (spawnPieces rs ds s) = None"
  "nextRef (spawnPieces rs ds s) = Suc (Suc (Suc (nextRef s)))"
  by (simp_all add: spawnPieces_def alloc_def Let_def split: prod.splits)

lemma handlePlacePiece_combo:
  "combo (handlePlacePiece L c s piece x y src ds) =
     (if turnLinesCleared L c piece x y > 0 then combo s + 1 else 1)"
  by (simp add: handlePlacePiece_def turnLinesCleared_def Let_def
      split: prod.splits Source.splits)

lemma handlePlacePiece_keys:
  "keys (handlePlacePiece L c s piece x y src ds) =
     (if turnLinesCleared L c piece x y > 0
      then keys s + turnLinesCleared L c piece x y else keys s)"
  by (simp add: handlePlacePiece_def turnLinesCleared_def Let_def
      split: prod.splits Source.splits)

lemma handlePlacePiece_score:
  "score (handlePlacePiece L c s piece x y src ds) =
     score s + blockCount piece * 10 +
     (if turnLinesCleared L c piece x y > 0
      then calculateScore L (turnLinesCleared L c piece x y) (seenCombo c) else 0)"
  by (simp add: handlePlacePiece_def turnLinesCleared_def Let_def
      split: prod.splits Source.splits)

lemma handlePlacePiece_highScore:
  "highScore (handlePlacePiece L c s piece x y src ds) =
     (if score (handlePlacePiece L c s piece x y src ds) > seenHighScore c
      then score (handlePlacePiece L c s piece x y src ds) else highScore s)"
  by (simp add: handlePlacePiece_def turnLinesCleared_def Let_def
      split: prod.splits Source.splits)

lemma handlePlacePiece_frame:
  "dragState (handlePlacePiece L c s piece x y src ds) = dragState s"
  "listener (handlePlacePiece L c s piece x y src ds) = listener s"
  by (simp_all add: handlePlacePiece_def Let_def split: prod.splits Source.splits)

lemma startGame_fields:
  "keys (startGame s ds) = 3"
  "combo (startGame s ds) = 1"
  "score (startGame s ds) = 0"
  "highScore (startGame s ds) = highScore s"
  by (simp_all add: startGame_def Let_def)

section \<open>The shape catalog\<close>

lemma templates_shapeInvariant:
  "list_all (shapeInvariant 4) SHAPE_TEMPLATES"
  by (simp add: SHAPE_TEMPLATES_def shapeInvariant_def binaryMatrix_def filledCellCount_def
      rowCount_def columnCount_def)

text \<open>
  C4 (as stated): every drawn shape has a binary, rectangular matrix with a filled cell and
  with row count and column count between 1 and 3. The sixth template, Line 4
  \<^verbatim>\<open>[[1, 1, 1, 1]]\<close>, has four columns.
\<close>

theorem C4_drawn_shape_within_3x3_counterexample:
  "validDraw \<lparr> templateIx = 5, colorIx = 0, drawnId = ''a'' \<rparr> \<and>
   \<not> shapeInvariant 3 (matrix (generateRandomShape \<lparr> templateIx = 5, colorIx = 0, drawnId = ''a'' \<rparr>))"
  by (simp add: validDraw_def generateRandomShape_def SHAPE_TEMPLATES_def COLORS_def
      shapeInvariant_def columnCount_def)

text \<open>
  C4 (amended): every drawn shape has a binary, rectangular matrix with a filled cell and
  with row count and column count between 1 and 4.
\<close>

theorem C4_drawn_shape_within_4x4:
  "validDraw d \<Longrightarrow> shapeInvariant 4 (matrix (generateRandomShape d))"
  using templates_shapeInvariant
  by (simp add: validDraw_def generateRandomShape_def list_all_length)

theorem C4_drawn_shape_within_4x4_witness:
  "validDraw \<lparr> templateIx = 9, colorIx = 2, drawnId = ''k3x'' \<rparr> \<and>
   shapeInvariant 4 (matrix (generateRandomShape \<lparr> templateIx = 9, colorIx = 2, drawnId = ''k3x'' \<rparr>))"
proof -
  have v: "validDraw \<lparr> templateIx = 9, colorIx = 2, drawnId = ''k3x'' \<rparr>"
    by (simp add: validDraw_def SHAPE_TEMPLATES_def COLORS_def)
  from v C4_drawn_shape_within_4x4 [OF v] show ?thesis by simp
qed

section \<open>Facts about the example states\<close>

lemma demo_clear_one:
  "turnLinesCleared demoLogic (render (demoState nearlyFullRowGrid [0, 1, 2] None 3)) dotShape 7 0 = 1"
  by (simp add: turnLinesCleared_def demoLogic_def specLogic_def demoState_def render_def)
    code_simp

lemma demo_clear_none:
  "turnLinesCleared demoLogic (render (demoState createEmptyGrid [0, 1, 2] None 3)) dotShape 0 0 = 0"
  by (simp add: turnLinesCleared_def demoLogic_def specLogic_def demoState_def render_def)
    code_simp

lemma demo_clear_two:
  "turnLinesCleared demoLogic (render (demoState diagonalGrid [0, 1, 2] None 3)) dotShape 7 0 = 2"
  by (simp add: turnLinesCleared_def demoLogic_def specLogic_def demoState_def render_def)
    code_simp

lemma squareShape_binary: "binaryMatrix (matrix squareShape)"
  by (simp add: squareShape_def binaryMatrix_def)

lemma demo_square_clear_none:
  "turnLinesCleared demoLogic (render (demoState createEmptyGrid [0, 1, 2] None 3)) squareShape 2 2 = 0"
  by (simp add: turnLinesCleared_def demoLogic_def specLogic_def demoState_def render_def)
    code_simp

lemma dot_fits_diagonal: "canPlace_spec diagonalGrid dotShape 7 0"
  by code_simp

lemma diagonal_clears_two:
  "snd (clearCompletedLines_spec (applyPlacement_spec diagonalGrid dotShape 7 0)) = 2"
  by code_simp

lemma diagonal_grid_changes:
  "fst (clearCompletedLines_spec (applyPlacement_spec diagonalGrid dotShape 7 0)) \<noteq> diagonalGrid"
  by code_simp

lemma diagonal_stale_game_over:
  "isGameOver_spec diagonalGrid
     [generateRandomShape line2Draw, generateRandomShape line2Draw, generateRandomShape line2Draw] None"
  by code_simp

lemma diagonal_real_not_game_over:
  "\<not> isGameOver_spec (fst (clearCompletedLines_spec (applyPlacement_spec diagonalGrid dotShape 7 0)))
     [generateRandomShape line2Draw, generateRandomShape line2Draw, generateRandomShape line2Draw] None"
  by code_simp

lemma dot_fits_diagonal2: "canPlace_spec diagonalGrid2 dotShape 7 0"
  by code_simp

lemma diagonal2_clears_none:
  "snd (clearCompletedLines_spec (applyPlacement_spec diagonalGrid2 dotShape 7 0)) = 0"
  by code_simp

lemma diagonal2_real_game_over:
  "isGameOver_spec (fst (clearCompletedLines_spec (applyPlacement_spec diagonalGrid2 dotShape 7 0)))
     [squareShape] None"
  by code_simp

lemma dot_fits_empty: "canPlace_spec createEmptyGrid dotShape 0 0"
  by code_simp

lemma dot_on_empty_clears_none:
  "snd (clearCompletedLines_spec (applyPlacement_spec createEmptyGrid dotShape 0 0)) = 0"
  by code_simp

lemmas handler_defs =
  handleDragStart_def handlePointerMove_def handlePointerUp_def handlePlacePiece_def
  handleHoldDrop_def handleHoldButton_def spawnPieces_def timeoutFires_def alloc_def
  arrayGet_def Let_def split_beta removeIndex_eq render_def registerListeners_def rerender_def

section \<open>Scoring, combo and keys of a turn\<close>

text \<open>
  C5: in a placement turn with \<open>linesCleared \<ge> 1\<close> the combo becomes the current combo plus
  exactly 1, whatever the number of lines; with \<open>linesCleared = 0\<close> it becomes 1; and
  \<^verbatim>\<open>startGame\<close> sets it to 1. This holds for every closure \<open>c\<close> that \<^verbatim>\<open>handlePlacePiece\<close> runs
  in.
\<close>

theorem C5_combo_transition:
  "(1 \<le> turnLinesCleared L c piece x y \<longrightarrow>
      combo (handlePlacePiece L c s piece x y src ds) = combo s + 1) \<and>
   (turnLinesCleared L c piece x y = 0 \<longrightarrow>
      combo (handlePlacePiece L c s piece x y src ds) = 1) \<and>
   combo (startGame s ds) = 1"
  by (simp add: handlePlacePiece_combo startGame_fields)

theorem C5_combo_transition_witness:
  "1 \<le> turnLinesCleared demoLogic (render (demoState nearlyFullRowGrid [0, 1, 2] None 3))
          dotShape 7 0 \<and>
   combo (handlePlacePiece demoLogic (render (demoState nearlyFullRowGrid [0, 1, 2] None 3))
            (demoState nearlyFullRowGrid [0, 1, 2] None 3) dotShape 7 0
            (Pool 1) line2Draws) = 2 \<and>
   turnLinesCleared demoLogic (render (demoState diagonalGrid [0, 1, 2] None 3)) dotShape 7 0 = 2 \<and>
   combo (handlePlacePiece demoLogic (render (demoState diagonalGrid [0, 1, 2] None 3))
            (demoState diagonalGrid [0, 1, 2] None 3) dotShape 7 0
            (Pool 1) line2Draws) = 2 \<and>
   turnLinesCleared demoLogic (render (demoState createEmptyGrid [0, 1, 2] None 3)) dotShape 0 0
     = 0 \<and>
   combo (handlePlacePiece demoLogic (render (demoState createEmptyGrid [0, 1, 2] None 3))
            (demoState createEmptyGrid [0, 1, 2] None 3) dotShape 0 0
            (Pool 1) line2Draws) = 1"
proof -
  let ?s1 = "demoState nearlyFullRowGrid [0, 1, 2] None 3"
  let ?s2 = "demoState diagonalGrid [0, 1, 2] None 3"
  let ?s0 = "demoState createEmptyGrid [0, 1, 2] None 3"
  have one: "1 \<le> turnLinesCleared demoLogic (render ?s1) dotShape 7 0"
    unfolding demo_clear_one by simp
  have two: "turnLinesCleared demoLogic (render ?s2) dotShape 7 0 = 2"
    by (rule demo_clear_two)
  then have two': "1 \<le> turnLinesCleared demoLogic (render ?s2) dotShape 7 0"
    by simp
  have none: "turnLinesCleared demoLogic (render ?s0) dotShape 0 0 = 0"
    by (rule demo_clear_none)
  have "combo (handlePlacePiece demoLogic (render ?s1) ?s1 dotShape 7 0 (Pool 1) line2Draws)
          = combo ?s1 + 1"
    using C5_combo_transition [of demoLogic "render ?s1" dotShape 7 0 ?s1 "Pool 1" line2Draws]
      one by blast
  moreover
  have "combo (handlePlacePiece demoLogic (render ?s2) ?s2 dotShape 7 0 (Pool 1) line2Draws)
          = combo ?s2 + 1"
    using C5_combo_transition [of demoLogic "render ?s2" dotShape 7 0 ?s2 "Pool 1" line2Draws]
      two' by blast
  moreover have "combo ?s1 = 1" and "combo ?s2 = 1"
    by (simp_all add: demoState_def)
  moreover
  have "combo (handlePlacePiece demoLogic (render ?s0) ?s0 dotShape 0 0 (Pool 1) line2Draws) = 1"
    using C5_combo_transition [of demoLogic "render ?s0" dotShape 0 0 ?s0 "Pool 1" line2Draws]
      none by blast
  ultimately show ?thesis
    using one two none by simp
qed

text \<open>
  C6: a placement turn grants exactly \<open>linesCleared\<close> keys when \<open>linesCleared \<ge> 1\<close> and no
  key when \<open>linesCleared = 0\<close>, for every closure \<open>c\<close> that \<^verbatim>\<open>handlePlacePiece\<close> runs in.
\<close>

theorem C6_keys_reward:
  "(1 \<le> turnLinesCleared L c piece x y \<longrightarrow>
      keys (handlePlacePiece L c s piece x y src ds) = keys s + turnLinesCleared L c piece x y) \<and>
   (turnLinesCleared L c piece x y = 0 \<longrightarrow>
      keys (handlePlacePiece L c s piece x y src ds) = keys s)"
  by (simp add: handlePlacePiece_keys)

theorem C6_keys_reward_witness:
  "1 \<le> turnLinesCleared demoLogic (render (demoState nearlyFullRowGrid [0, 1, 2] None 3))
          dotShape 7 0 \<and>
   keys (handlePlacePiece demoLogic (render (demoState nearlyFullRowGrid [0, 1, 2] None 3))
            (demoState nearlyFullRowGrid [0, 1, 2] None 3) dotShape 7 0
            (Pool 1) line2Draws) = 4 \<and>
   turnLinesCleared demoLogic (render (demoState diagonalGrid [0, 1, 2] None 3)) dotShape 7 0 = 2 \<and>
   keys (handlePlacePiece demoLogic (render (demoState diagonalGrid [0, 1, 2] None 3))
            (demoState diagonalGrid [0, 1, 2] None 3) dotShape 7 0
            (Pool 1) line2Draws) = 5 \<and>
   turnLinesCleared demoLogic (render (demoState createEmptyGrid [0, 1, 2] None 3)) dotShape 0 0
     = 0 \<and>
   keys (handlePlacePiece demoLogic (render (demoState createEmptyGrid [0, 1, 2] None 3))
            (demoState createEmptyGrid [0, 1, 2] None 3) dotShape 0 0
            (Pool 1) line2Draws) = 3"
proof -
  let ?s1 = "demoState nearlyFullRowGrid [0, 1, 2] None 3"
  let ?s2 = "demoState diagonalGrid [0, 1, 2] None 3"
  let ?s0 = "demoState createEmptyGrid [0, 1, 2] None 3"
  have lc1: "turnLinesCleared demoLogic (render ?s1) dotShape 7 0 = 1"
    by (rule demo_clear_one)
  then have one: "1 \<le> turnLinesCleared demoLogic (render ?s1) dotShape 7 0"
    by simp
  have lc2: "turnLinesCleared demoLogic (render ?s2) dotShape 7 0 = 2"
    by (rule demo_clear_two)
  then have two: "1 \<le> turnLinesCleared demoLogic (render ?s2) dotShape 7 0"
    by simp
  have none: "turnLinesCleared demoLogic (render ?s0) dotShape 0 0 = 0"
    by (rule demo_clear_none)
  have "keys (handlePlacePiece demoLogic (render ?s1) ?s1 dotShape 7 0 (Pool 1) line2Draws) =
          keys ?s1 + turnLinesCleared demoLogic (render ?s1) dotShape 7 0"
    using C6_keys_reward [of demoLogic "render ?s1" dotShape 7 0 ?s1 "Pool 1" line2Draws]
      one by blast
  moreover
  have "keys (handlePlacePiece demoLogic (render ?s2) ?s2 dotShape 7 0 (Pool 1) line2Draws) =
          keys ?s2 + turnLinesCleared demoLogic (render ?s2) dotShape 7 0"
    using C6_keys_reward [of demoLogic "render ?s2" dotShape 7 0 ?s2 "Pool 1" line2Draws]
      two by blast
  moreover have "keys ?s1 = 3" and "keys ?s2 = 3" and "keys ?s0 = 3"
    by (simp_all add: demoState_def)
  moreover
  have "keys (handlePlacePiece demoLogic (render ?s0) ?s0 dotShape 0 0 (Pool 1) line2Draws)
          = keys ?s0"
    using C6_keys_reward [of demoLogic "render ?s0" dotShape 0 0 ?s0 "Pool 1" line2Draws]
      none by blast
  ultimately show ?thesis
    using lc1 lc2 none by simp
qed

text \<open>
  C7: for a placed shape (binary matrix), the score of the turn is the score before, plus
  the number of filled cells of the shape times 10, plus the line score when lines were
  cleared: the placement component is \<open>filledCellCount * 10\<close>. The line score is computed
  with the combo of the closure \<open>c\<close> that \<^verbatim>\<open>handlePlacePiece\<close> runs in.
\<close>

theorem C7_placement_score:
  "binaryMatrix (matrix piece) \<Longrightarrow>
   score (handlePlacePiece L c s piece x y src ds) =
     score s + int (filledCellCount (matrix piece)) * 10 +
     (if turnLinesCleared L c piece x y > 0
      then calculateScore L (turnLinesCleared L c piece x y) (seenCombo c) else 0)"
  by (simp add: handlePlacePiece_score blockCount_binary)

theorem C7_placement_score_witness:
  "binaryMatrix (matrix squareShape) \<and>
   score (handlePlacePiece demoLogic (render (demoState createEmptyGrid [0, 1, 2] None 3))
            (demoState createEmptyGrid [0, 1, 2] None 3) squareShape 2 2
            (Pool 2) line2Draws) = 90"
proof -
  let ?s0 = "demoState createEmptyGrid [0, 1, 2] None 3"
  have "score (handlePlacePiece demoLogic (render ?s0) ?s0 squareShape 2 2 (Pool 2) line2Draws) =
          score ?s0 + int (filledCellCount (matrix squareShape)) * 10 +
          (if turnLinesCleared demoLogic (render ?s0) squareShape 2 2 > 0
           then calculateScore demoLogic (turnLinesCleared demoLogic (render ?s0) squareShape 2 2)
                  (seenCombo (render ?s0))
           else 0)"
    by (rule C7_placement_score [OF squareShape_binary])
  moreover have "score ?s0 = 0"
    by (simp add: demoState_def)
  moreover have "filledCellCount (matrix squareShape) = 9"
    by (simp add: squareShape_def filledCellCount_def)
  ultimately show ?thesis
    unfolding demo_square_clear_none using squareShape_binary by simp
qed

text \<open>
  C10: \<^verbatim>\<open>startGame\<close> always sets the keys to exactly 3, which covers the rotation cost of 2,
  before any line has been cleared.
\<close>

theorem C10_start_keys:
  "keys (startGame s ds) = 3 \<and> COST_ROTATE \<le> keys (startGame s ds)"
  by (simp add: startGame_fields COST_ROTATE_def)

section \<open>Rotation\<close>

text \<open>
  C2: a rotation request with fewer keys than \<open>COST_ROTATE\<close> changes nothing (no object, no
  key, no fault), for the selected pool shape and for the hold piece alike; with enough
  keys, and a shape to rotate, exactly \<open>COST_ROTATE = 2\<close> keys are deducted and the matrix of
  the shape is replaced by its rotation.
\<close>

theorem C2_rotation_cost:
  "(keys s < COST_ROTATE \<longrightarrow> handleRotate L s = Inr s \<and> handleRotateHold L s = s) \<and>
   (COST_ROTATE \<le> keys s \<and> selectedPieceIndex s = Some i \<and> i < length (availablePieces s) \<longrightarrow>
      (\<exists>s'. handleRotate L s = Inr s' \<and> keys s' = keys s - 2 \<and>
            matrix (heap s' (availablePieces s' ! i)) =
              rotateMatrix L (matrix (heap s (availablePieces s ! i))))) \<and>
   (COST_ROTATE \<le> keys s \<and> holdPiece s = Some hp \<longrightarrow>
      (\<exists>r. holdPiece (handleRotateHold L s) = Some r \<and>
           keys (handleRotateHold L s) = keys s - 2 \<and>
           matrix (heap (handleRotateHold L s) r) = rotateMatrix L (matrix (heap s hp))))"
  by (auto simp: handleRotate_def handleRotateHold_def arrayGet_def alloc_def Let_def COST_ROTATE_def
      split: option.splits)

theorem C2_rotation_cost_witness:
  "keys (selectedState 1) < COST_ROTATE \<and>
   handleRotate demoLogic (selectedState 1) = Inr (selectedState 1) \<and>
   handleRotateHold demoLogic (selectedState 1) = selectedState 1 \<and>
   COST_ROTATE \<le> keys (selectedState 3) \<and>
   selectedPieceIndex (selectedState 3) = Some 0 \<and>
   0 < length (availablePieces (selectedState 3)) \<and>
   holdPiece (selectedState 3) = Some 3 \<and>
   (\<exists>s'. handleRotate demoLogic (selectedState 3) = Inr s' \<and> keys s' = 1 \<and>
         matrix (heap s' (availablePieces s' ! 0)) = [[1], [1]]) \<and>
   (\<exists>r. holdPiece (handleRotateHold demoLogic (selectedState 3)) = Some r \<and>
        keys (handleRotateHold demoLogic (selectedState 3)) = 1 \<and>
        matrix (heap (handleRotateHold demoLogic (selectedState 3)) r) = [[1, 1], [0, 1], [0, 1]])"
proof -
  have lo: "keys (selectedState 1) < COST_ROTATE"
    by (simp add: selectedState_def demoState_def COST_ROTATE_def)
  have hi: "COST_ROTATE \<le> keys (selectedState 3) \<and> selectedPieceIndex (selectedState 3) = Some 0 \<and>
            0 < length (availablePieces (selectedState 3))"
    by (simp add: selectedState_def demoState_def COST_ROTATE_def)
  have hp: "COST_ROTATE \<le> keys (selectedState 3) \<and> holdPiece (selectedState 3) = Some 3"
    by (simp add: selectedState_def demoState_def COST_ROTATE_def)
  have vals: "keys (selectedState 3) - 2 = 1"
    "rotateMatrix demoLogic (matrix (heap (selectedState 3) (availablePieces (selectedState 3) ! 0))) = [[1], [1]]"
    "rotateMatrix demoLogic (matrix (heap (selectedState 3) 3)) = [[1, 1], [0, 1], [0, 1]]"
    by (simp_all add: selectedState_def demoState_def demoHeap_def demoLogic_def specLogic_def
        rotate_spec_def line2Shape_def elShape_def)
  from C2_rotation_cost [of "selectedState 1" demoLogic 0 3] lo
  have a: "handleRotate demoLogic (selectedState 1) = Inr (selectedState 1) \<and>
           handleRotateHold demoLogic (selectedState 1) = selectedState 1"
    by blast
  from C2_rotation_cost [of "selectedState 3" demoLogic 0 3] hi hp
  have b: "(\<exists>s'. handleRotate demoLogic (selectedState 3) = Inr s' \<and> keys s' = keys (selectedState 3) - 2 \<and>
            matrix (heap s' (availablePieces s' ! 0)) =
              rotateMatrix demoLogic (matrix (heap (selectedState 3) (availablePieces (selectedState 3) ! 0)))) \<and>
      (\<exists>r. holdPiece (handleRotateHold demoLogic (selectedState 3)) = Some r \<and>
           keys (handleRotateHold demoLogic (selectedState 3)) = keys (selectedState 3) - 2 \<and>
           matrix (heap (handleRotateHold demoLogic (selectedState 3)) r) =
             rotateMatrix demoLogic (matrix (heap (selectedState 3) 3)))"
    by blast
  from lo hi hp a b show ?thesis
    unfolding vals by blast
qed

text \<open>
  C3 (the code at a failing input): the Line 2 at address 0 is selected in the pool and 3
  keys are available. After \<^verbatim>\<open>handleRotate\<close> the pool still holds address 0, and the object
  at address 0, the one the pool held before, has the rotated matrix: it was written in
  place. \<^verbatim>\<open>handleRotateHold\<close> on the same state leaves the old hold object at address 3 as
  it was and puts a new object, at address 4, into the hold slot.
\<close>

theorem C3_pool_rotation_mutates_in_place:
  "(case handleRotate demoLogic (selectedState 3) of
      Inl f \<Rightarrow> False
    | Inr s' \<Rightarrow>
        availablePieces (selectedState 3) ! 0 = 0 \<and>
        availablePieces s' ! 0 = 0 \<and>
        matrix (heap (selectedState 3) 0) = [[1, 1]] \<and>
        matrix (heap s' 0) = [[1], [1]]) \<and>
   holdPiece (selectedState 3) = Some 3 \<and>
   holdPiece (handleRotateHold demoLogic (selectedState 3)) = Some 4 \<and>
   matrix (heap (selectedState 3) 3) = [[1, 1, 1], [1, 0, 0]] \<and>
   matrix (heap (handleRotateHold demoLogic (selectedState 3)) 3) = [[1, 1, 1], [1, 0, 0]] \<and>
   matrix (heap (handleRotateHold demoLogic (selectedState 3)) 4) = [[1, 1], [0, 1], [0, 1]]"
  by (simp add: handleRotate_def handleRotateHold_def arrayGet_def alloc_def Let_def COST_ROTATE_def
      selectedState_def demoState_def demoHeap_def demoLogic_def specLogic_def
      rotate_spec_def line2Shape_def elShape_def)

section \<open>Game-over detection after a placement\<close>

text \<open>
  C1 (the code at two failing inputs). First run: the pool holds one dot and the grid is
  \<open>diagonalGrid\<close>. Dropping the dot at (7, 0) completes row 0 and column 7, the pool
  becomes empty and \<^verbatim>\<open>spawnPieces\<close> draws three Line 2 shapes. The pending check holds the
  grid of before the placement, not the grid that the placement produced; when it runs,
  the phase becomes \<^verbatim>\<open>'gameover'\<close> although a Line 2 fits the cleared row. Second run: the
  pool holds a 3x3 square, the hold slot a dot, the grid is \<open>diagonalGrid2\<close>. Dropping the
  dot from the hold slot at (7, 0) clears nothing; no check is made and none is pending,
  and the phase stays \<^verbatim>\<open>'playing'\<close> although the square fits nowhere.
\<close>

theorem C1_game_over_check_after_placement:
  "(case run demoLogic (demoState diagonalGrid [1] None 0)
           [PointerDown (Pool 0), PointerMove (OverGrid 7 0), PointerUp line2Draws] of
      Inl f \<Rightarrow> False
    | Inr s' \<Rightarrow>
        phase s' = Playing \<and>
        map timerGrid (timers s') = [diagonalGrid] \<and>
        grid s' \<noteq> diagonalGrid \<and>
        \<not> isGameOver_spec (grid s') (map (heap s') (availablePieces s'))
             (map_option (heap s') (holdPiece s'))) \<and>
   (case run demoLogic (demoState diagonalGrid [1] None 0)
           [PointerDown (Pool 0), PointerMove (OverGrid 7 0), PointerUp line2Draws, Timeout] of
      Inl f \<Rightarrow> False
    | Inr s' \<Rightarrow>
        phase s' = Gameover \<and>
        \<not> isGameOver_spec (grid s') (map (heap s') (availablePieces s'))
             (map_option (heap s') (holdPiece s'))) \<and>
   (case run demoLogic (demoState diagonalGrid2 [2] (Some 1) 0)
           [PointerDown Hold, PointerMove (OverGrid 7 0), PointerUp line2Draws] of
      Inl f \<Rightarrow> False
    | Inr s' \<Rightarrow>
        phase s' = Playing \<and> timers s' = [] \<and> holdPiece s' = None \<and> availablePieces s' = [2] \<and>
        isGameOver_spec (grid s') (map (heap s') (availablePieces s'))
             (map_option (heap s') (holdPiece s')))"
proof (intro conjI)
  show "(case run demoLogic (demoState diagonalGrid [1] None 0)
           [PointerDown (Pool 0), PointerMove (OverGrid 7 0), PointerUp line2Draws] of
      Inl f \<Rightarrow> False
    | Inr s' \<Rightarrow>
        phase s' = Playing \<and>
        map timerGrid (timers s') = [diagonalGrid] \<and>
        grid s' \<noteq> diagonalGrid \<and>
        \<not> isGameOver_spec (grid s') (map (heap s') (availablePieces s'))
             (map_option (heap s') (holdPiece s')))"
    using dot_fits_diagonal diagonal_clears_two diagonal_grid_changes diagonal_real_not_game_over
    by (simp add: handler_defs demoState_def demoHeap_def demoLogic_def specLogic_def
        GRID_SIZE_def line2Draws_def)
  show "(case run demoLogic (demoState diagonalGrid [1] None 0)
           [PointerDown (Pool 0), PointerMove (OverGrid 7 0), PointerUp line2Draws, Timeout] of
      Inl f \<Rightarrow> False
    | Inr s' \<Rightarrow>
        phase s' = Gameover \<and>
        \<not> isGameOver_spec (grid s') (map (heap s') (availablePieces s'))
             (map_option (heap s') (holdPiece s')))"
    using dot_fits_diagonal diagonal_clears_two diagonal_grid_changes diagonal_real_not_game_over
      diagonal_stale_game_over
    by (simp add: handler_defs demoState_def demoHeap_def demoLogic_def specLogic_def
        GRID_SIZE_def line2Draws_def)
  show "(case run demoLogic (demoState diagonalGrid2 [2] (Some 1) 0)
           [PointerDown Hold, PointerMove (OverGrid 7 0), PointerUp line2Draws] of
      Inl f \<Rightarrow> False
    | Inr s' \<Rightarrow>
        phase s' = Playing \<and> timers s' = [] \<and> holdPiece s' = None \<and> availablePieces s' = [2] \<and>
        isGameOver_spec (grid s') (map (heap s') (availablePieces s'))
             (map_option (heap s') (holdPiece s')))"
    using dot_fits_diagonal2 diagonal2_clears_none diagonal2_real_game_over
    by (simp add: handler_defs demoState_def demoHeap_def demoLogic_def specLogic_def
        GRID_SIZE_def line2Draws_def)
qed

section \<open>The pool invariant holds in every reachable state, and no handler faults\<close>

lemma poolInv_reset_drag:
  "poolInv s \<Longrightarrow> poolInv (s\<lparr> dragState := None, dropPreview := None, isHoveringHold := False \<rparr>)"
  by (simp add: poolInv_def)

lemma poolInv_registerListeners: "poolInv s \<Longrightarrow> poolInv (registerListeners s)"
  by (auto simp: poolInv_def registerListeners_def render_def)

lemma poolInv_rerender: "poolInv s \<Longrightarrow> poolInv (rerender b s)"
  by (simp add: rerender_def poolInv_registerListeners)

lemma poolInv_startGame: "poolInv s \<Longrightarrow> poolInv (startGame s ds)"
  by (auto simp: poolInv_def startGame_def Let_def)

lemma poolInv_handleDragStart:
  "poolInv s \<Longrightarrow> (\<And>i. src = Pool i \<Longrightarrow> i < length (availablePieces s)) \<Longrightarrow>
   poolInv (rerender (phase s = Playing) (handleDragStart s p src))"
  by (auto simp: poolInv_def handleDragStart_def alloc_def rerender_def registerListeners_def
      render_def split: Source.splits)

lemma poolInv_handlePointerMove: "poolInv s \<Longrightarrow> poolInv (handlePointerMove L s t)"
  by (auto simp: poolInv_def handlePointerMove_def split: option.splits PointerTarget.splits)

lemma poolInv_timeoutFires: "poolInv s \<Longrightarrow> poolInv (timeoutFires L s)"
  by (auto simp: poolInv_def timeoutFires_def Let_def split: list.splits)

lemma poolInv_handleRotateHold: "poolInv s \<Longrightarrow> poolInv (handleRotateHold L s)"
  by (auto simp: poolInv_def handleRotateHold_def alloc_def Let_def split: option.splits)

lemma poolInv_handleRotate: "poolInv s \<Longrightarrow> \<exists>s'. handleRotate L s = Inr s' \<and> poolInv s'"
  by (auto simp: poolInv_def handleRotate_def arrayGet_def Let_def split: option.splits)

lemma poolInv_handleHoldDrop:
  assumes "poolInv s" and "i < 3" and "i \<le> length (seenPieces c)"
    and "length (seenPieces c) \<le> 3"
    and "\<forall>d i'. dragState s = Some d \<and> sourceIndex d = Pool i' \<longrightarrow>
           i' = i \<or> i' < length (seenPieces c)"
  shows "\<exists>s'. handleHoldDrop c s p (Pool i) ds = Inr s' \<and> poolInv s'"
proof (cases "seenHold c")
  case None
  with assms show ?thesis
    by (fastforce simp: poolInv_def handleHoldDrop_def Let_def length_removeIndex)
next
  case (Some h)
  with assms show ?thesis
    by (fastforce simp: poolInv_def handleHoldDrop_def Let_def arraySet_def)
qed

lemma poolInv_handleHoldButton:
  assumes "poolInv s"
  shows "\<exists>s'. handleHoldButton s ds = Inr s' \<and> poolInv s'"
proof (cases "selectedPieceIndex s")
  case None
  with assms show ?thesis by (simp add: handleHoldButton_def)
next
  case (Some i)
  with assms have a: "i < 3" and b: "i \<le> length (seenPieces (render s))"
    and l: "length (seenPieces (render s)) \<le> 3"
    and c: "\<forall>d i'. dragState s = Some d \<and> sourceIndex d = Pool i' \<longrightarrow>
           i' = i \<or> i' < length (seenPieces (render s))"
    by (auto simp: poolInv_def render_def)
  from poolInv_handleHoldDrop [OF assms a b l c] Some show ?thesis
    by (simp add: handleHoldButton_def)
qed

lemma poolInv_handlePlacePiece_reset:
  "poolInv s \<Longrightarrow> length (seenPieces c) \<le> 3 \<Longrightarrow>
   poolInv ((handlePlacePiece L c s piece x y src ds)
              \<lparr> dragState := None, dropPreview := None, isHoveringHold := False \<rparr>)"
  by (auto simp: poolInv_def handlePlacePiece_def Let_def split_beta length_removeIndex
      split: Source.splits)

lemma poolInv_handlePointerUp:
  assumes "poolInv s"
  shows "\<exists>s'. handlePointerUp L s ds = Inr s' \<and> poolInv s'"
proof (cases "dragState s")
  case None
  with assms show ?thesis by (simp add: handlePointerUp_def)
next
  case (Some d)
  from assms have l: "length (seenPieces (listener s)) \<le> 3"
    by (simp add: poolInv_def)
  show ?thesis
  proof (cases "dropPreview s")
    case (Some xy)
    with \<open>dragState s = Some d\<close> poolInv_handlePlacePiece_reset [OF assms l] show ?thesis
      by (simp add: handlePointerUp_def Let_def split_beta)
  next
    case None
    show ?thesis
    proof (cases "isHoveringHold s")
      case False
      with None \<open>dragState s = Some d\<close> poolInv_reset_drag [OF assms] show ?thesis
        by (simp add: handlePointerUp_def Let_def)
    next
      case True
      show ?thesis
      proof (cases "sourceIndex d")
        case Hold
        with True None \<open>dragState s = Some d\<close> poolInv_reset_drag [OF assms] show ?thesis
          by (simp add: handlePointerUp_def handleHoldDrop_def Let_def)
      next
        case (Pool i)
        with assms \<open>dragState s = Some d\<close>
        have a: "i < 3" and b: "i \<le> length (seenPieces (listener s))"
          by (auto simp: poolInv_def)
        have c: "\<forall>d' i'. dragState s = Some d' \<and> sourceIndex d' = Pool i' \<longrightarrow>
                   i' = i \<or> i' < length (seenPieces (listener s))"
          using Pool \<open>dragState s = Some d\<close> by simp
        from poolInv_handleHoldDrop [OF assms a b l c, where p = "Some (dragPiece d)" and ds = ds]
        obtain s' where "handleHoldDrop (listener s) s (Some (dragPiece d)) (Pool i) ds = Inr s'"
          "poolInv s'"
          by blast
        with True None Pool \<open>dragState s = Some d\<close> poolInv_reset_drag [of s'] show ?thesis
          by (simp add: handlePointerUp_def Let_def)
      qed
    qed
  qed
qed

lemma poolInv_step:
  assumes "poolInv s"
  shows "\<exists>s'. step L s e = Inr s' \<and> poolInv s'"
proof (cases e)
  case (ClickStart ds)
  with poolInv_rerender [OF poolInv_startGame [OF assms]] show ?thesis by simp
next
  case (PointerDown src)
  show ?thesis
  proof (cases src)
    case (Pool i)
    with PointerDown assms show ?thesis
      by (auto simp: arrayGet_def intro: poolInv_handleDragStart)
  next
    case Hold
    with PointerDown assms show ?thesis
      by (auto intro: poolInv_handleDragStart split: option.splits)
  qed
next
  case (PointerMove t)
  with poolInv_rerender [OF poolInv_handlePointerMove [OF assms]] show ?thesis by simp
next
  case (PointerUp ds)
  from poolInv_handlePointerUp [OF assms] obtain s' where
    "handlePointerUp L s ds = Inr s'" "poolInv s'" by blast
  with PointerUp poolInv_rerender [of s'] show ?thesis by simp
next
  case (ClickHold ds)
  with poolInv_handleHoldButton [OF assms] show ?thesis by simp
next
  case ClickFlip
  with poolInv_handleRotate [OF assms] show ?thesis by simp
next
  case ClickFlipHold
  with poolInv_handleRotateHold [OF assms] show ?thesis by simp
next
  case ClickMenu
  with assms show ?thesis by (auto simp: poolInv_def)
next
  case Timeout
  with poolInv_timeoutFires [OF assms] show ?thesis by simp
qed

lemma poolInv_run: "poolInv s \<Longrightarrow> \<exists>s'. run L s es = Inr s' \<and> poolInv s'"
proof (induction es arbitrary: s)
  case Nil
  then show ?case by simp
next
  case (Cons e es)
  from poolInv_step [OF Cons.prems] obtain s1 where s1: "step L s e = Inr s1" "poolInv s1"
    by blast
  from Cons.IH [OF s1(2)] s1(1) show ?case by simp
qed

lemma poolInv_initialState: "poolInv (initialState hs)"
  by (simp add: poolInv_def initialState_def)

section \<open>Allocated references, binary shapes and the session state in every reachable state\<close>

lemma generateRandomShape_binary:
  "validDraw d \<Longrightarrow> binaryMatrix (matrix (generateRandomShape d))"
  using templates_shapeInvariant
  by (simp add: validDraw_def generateRandomShape_def list_all_length shapeInvariant_def)

lemma heapInv_reset_drag:
  "heapInv s \<Longrightarrow> heapInv (s\<lparr> dragState := None, dropPreview := None, isHoveringHold := False \<rparr>)"
  by (simp add: heapInv_def)

lemma heapInv_registerListeners: "heapInv s \<Longrightarrow> heapInv (registerListeners s)"
  by (auto simp: heapInv_def registerListeners_def render_def)

lemma heapInv_rerender: "heapInv s \<Longrightarrow> heapInv (rerender b s)"
  by (simp add: rerender_def heapInv_registerListeners)

lemma heapInv_spawnPieces:
  assumes "heapInv s" and "validDraws ds"
  shows "heapInv (spawnPieces c ds s)"
proof -
  obtain d1 d2 d3 where ds: "ds = (d1, d2, d3)" by (cases ds) auto
  with assms(2) have b: "binaryMatrix (matrix (generateRandomShape d1))"
    "binaryMatrix (matrix (generateRandomShape d2))" "binaryMatrix (matrix (generateRandomShape d3))"
    by (simp_all add: validDraws_def generateRandomShape_binary)
  from assms(1) b show ?thesis
    unfolding ds by (auto simp: heapInv_def spawnPieces_def alloc_def Let_def less_Suc_eq)
qed

lemma heapInv_startGame: "heapInv s \<Longrightarrow> validDraws ds \<Longrightarrow> heapInv (startGame s ds)"
proof -
  assume h: "heapInv s" and v: "validDraws ds"
  let ?s = "s\<lparr> grid := createEmptyGrid, score := 0, keys := 3, combo := 1, holdPiece := None \<rparr>"
  from h have "heapInv ?s" by (simp add: heapInv_def)
  from heapInv_spawnPieces [OF this v, of "render s"]
  have "heapInv (spawnPieces (render s) ds ?s)" .
  then have "heapInv ((spawnPieces (render s) ds ?s)\<lparr> phase := Playing \<rparr>)"
    by (simp add: heapInv_def)
  then show ?thesis by (simp add: startGame_def Let_def)
qed

lemma heapInv_handleDragStart:
  "heapInv s \<Longrightarrow> p < nextRef s \<Longrightarrow> heapInv (handleDragStart s p src)"
  by (auto simp: heapInv_def handleDragStart_def alloc_def less_Suc_eq)

lemma heapInv_handlePointerMove: "heapInv s \<Longrightarrow> heapInv (handlePointerMove L s t)"
  by (auto simp: heapInv_def handlePointerMove_def split: option.splits PointerTarget.splits)

lemma heapInv_timeoutFires: "heapInv s \<Longrightarrow> heapInv (timeoutFires L s)"
  by (auto simp: heapInv_def timeoutFires_def Let_def split: list.splits)

lemma heapInv_handleRotateHold:
  "logicOk L \<Longrightarrow> heapInv s \<Longrightarrow> heapInv (handleRotateHold L s)"
  by (auto simp: heapInv_def logicOk_def handleRotateHold_def alloc_def Let_def less_Suc_eq
      split: option.splits)

lemma heapInv_handleRotate:
  "logicOk L \<Longrightarrow> heapInv s \<Longrightarrow> handleRotate L s = Inr s' \<Longrightarrow> heapInv s'"
  by (auto simp: heapInv_def logicOk_def handleRotate_def arrayGet_def Let_def
      split: option.splits if_splits)

lemma heapInv_handlePlacePiece:
  assumes "heapInv s" and "validDraws ds" and "\<forall>r \<in> set (seenPieces c). r < nextRef s"
  shows "heapInv (handlePlacePiece L c s piece x y src ds)"
proof (cases src)
  case Hold
  with assms(1) show ?thesis
    by (simp add: heapInv_def handlePlacePiece_def Let_def split_beta)
next
  case (Pool i)
  let ?lc = "snd (checkLines L (placePiece L (seenGrid c) piece x y))"
  show ?thesis
  proof (cases "removeIndex i (seenPieces c) = []")
    case True
    have "\<exists>t. handlePlacePiece L c s piece x y src ds = spawnPieces c ds t \<and> heapInv t"
      using True Pool assms(1)
      by (cases "0 < ?lc") (auto simp: heapInv_def handlePlacePiece_def Let_def split_beta)
    with heapInv_spawnPieces [OF _ assms(2)] show ?thesis by auto
  next
    case False
    with Pool assms(1,3) set_removeIndex [of i "seenPieces c"] show ?thesis
      by (auto simp: heapInv_def handlePlacePiece_def Let_def split_beta)
  qed
qed

lemma set_arraySet: "arraySet xs i v = Inr ys \<Longrightarrow> set ys \<subseteq> insert v (set xs)"
  by (auto simp: arraySet_def split: if_splits dest: set_update_subset_insert [THEN subsetD])

lemma heapInv_handleHoldDrop:
  assumes "heapInv s" and "validDraws ds" and "\<forall>r. p = Some r \<longrightarrow> r < nextRef s"
    and "\<forall>r \<in> set (seenPieces c). r < nextRef s"
    and "\<forall>h. seenHold c = Some h \<longrightarrow> h < nextRef s"
    and "handleHoldDrop c s p src ds = Inr s'"
  shows "heapInv s'"
proof (cases src)
  case Hold
  with assms show ?thesis by (simp add: handleHoldDrop_def)
next
  case (Pool i)
  show ?thesis
  proof (cases "seenHold c")
    case (Some h)
    with Pool assms(6) obtain ys where ys: "arraySet (seenPieces c) i h = Inr ys"
      and s': "s' = s\<lparr> holdPiece := p, availablePieces := ys, selectedPieceIndex := None \<rparr>"
      by (auto simp: handleHoldDrop_def Let_def split: sum.splits)
    from set_arraySet [OF ys] assms(1,3,4,5) Some show ?thesis
      unfolding s' by (auto simp: heapInv_def)
  next
    case None
    let ?t = "s\<lparr> holdPiece := p \<rparr>"
    from assms(1,3) have t: "heapInv ?t" by (auto simp: heapInv_def)
    show ?thesis
    proof (cases "removeIndex i (seenPieces c) = []")
      case True
      with None Pool assms(6) have "s' = (spawnPieces c ds ?t)\<lparr> selectedPieceIndex := None \<rparr>"
        by (simp add: handleHoldDrop_def Let_def)
      moreover from heapInv_spawnPieces [OF t assms(2), of c]
      have "heapInv ((spawnPieces c ds ?t)\<lparr> selectedPieceIndex := None \<rparr>)"
        by (simp add: heapInv_def)
      ultimately show ?thesis by simp
    next
      case False
      with None Pool assms(6)
      have "s' = ?t\<lparr> availablePieces := removeIndex i (seenPieces c),
                      selectedPieceIndex := None \<rparr>"
        by (simp add: handleHoldDrop_def Let_def)
      with t assms(4) set_removeIndex [of i "seenPieces c"] show ?thesis
        by (auto simp: heapInv_def)
    qed
  qed
qed

lemma heapInv_handleHoldButton:
  assumes "heapInv s" and "validDraws ds" and "handleHoldButton s ds = Inr s'"
  shows "heapInv s'"
proof (cases "selectedPieceIndex s")
  case None
  with assms show ?thesis by (simp add: handleHoldButton_def)
next
  case (Some i)
  from assms(1) have a: "\<forall>r. arrayGet (availablePieces s) i = Some r \<longrightarrow> r < nextRef s"
    and b: "\<forall>r \<in> set (seenPieces (render s)). r < nextRef s"
    and c: "\<forall>h. seenHold (render s) = Some h \<longrightarrow> h < nextRef s"
    by (auto simp: heapInv_def arrayGet_def render_def)
  from heapInv_handleHoldDrop [OF assms(1,2) a b c] assms(3) Some show ?thesis
    by (simp add: handleHoldButton_def)
qed

lemma heapInv_handlePointerUp:
  assumes "heapInv s" and "validDraws ds" and "handlePointerUp L s ds = Inr s'"
  shows "heapInv s'"
proof (cases "dragState s")
  case None
  with assms show ?thesis by (simp add: handlePointerUp_def)
next
  case (Some d)
  with assms(1) have d: "\<forall>r. Some (dragPiece d) = Some r \<longrightarrow> r < nextRef s"
    by (simp add: heapInv_def)
  from assms(1) have b: "\<forall>r \<in> set (seenPieces (listener s)). r < nextRef s"
    and c: "\<forall>h. seenHold (listener s) = Some h \<longrightarrow> h < nextRef s"
    by (auto simp: heapInv_def)
  show ?thesis
  proof (cases "dropPreview s")
    case (Some xy)
    with \<open>dragState s = Some d\<close> assms(3)
    have "s' = (handlePlacePiece L (listener s) s (heap s (dragPiece d)) (fst xy) (snd xy)
                  (sourceIndex d) ds)
                 \<lparr> dragState := None, dropPreview := None, isHoveringHold := False \<rparr>"
      by (auto simp: handlePointerUp_def Let_def split_beta)
    with heapInv_reset_drag [OF heapInv_handlePlacePiece [OF assms(1,2) b]] show ?thesis
      by simp
  next
    case None
    show ?thesis
    proof (cases "isHoveringHold s")
      case False
      with None \<open>dragState s = Some d\<close> assms(3) heapInv_reset_drag [OF assms(1)] show ?thesis
        by (auto simp: handlePointerUp_def Let_def)
    next
      case True
      with None \<open>dragState s = Some d\<close> assms(3)
      obtain t where t: "handleHoldDrop (listener s) s (Some (dragPiece d)) (sourceIndex d) ds
                           = Inr t"
        and s': "s' = t\<lparr> dragState := None, dropPreview := None, isHoveringHold := False \<rparr>"
        by (auto simp: handlePointerUp_def Let_def split: sum.splits)
      from heapInv_reset_drag [OF heapInv_handleHoldDrop [OF assms(1,2) d b c t]] s' show ?thesis
        by simp
    qed
  qed
qed

lemma heapInv_step:
  assumes "logicOk L" and "validEvent e" and "heapInv s" and "step L s e = Inr s'"
  shows "heapInv s'"
proof (cases e)
  case (ClickStart ds)
  with assms heapInv_rerender [OF heapInv_startGame [of s ds]] show ?thesis by auto
next
  case (PointerDown src)
  have *: "heapInv (rerender b (handleDragStart s p src))" if "p < nextRef s" for b p
    using that assms(3) by (intro heapInv_rerender heapInv_handleDragStart)
  show ?thesis
  proof (cases src)
    case (Pool i)
    with PointerDown assms * [of "availablePieces s ! i"] show ?thesis
      by (auto simp: arrayGet_def heapInv_def split: if_splits)
  next
    case Hold
    with PointerDown assms * show ?thesis
      by (auto simp: heapInv_def split: option.splits)
  qed
next
  case (PointerMove t)
  with assms heapInv_rerender [OF heapInv_handlePointerMove [of s L t]] show ?thesis by auto
next
  case (PointerUp ds)
  with assms(4) obtain t where t: "handlePointerUp L s ds = Inr t"
    and s': "s' = rerender (dragState s \<noteq> None) t"
    by (auto split: sum.splits)
  from heapInv_handlePointerUp [OF assms(3) _ t] assms(2) PointerUp have "heapInv t" by simp
  with s' heapInv_rerender show ?thesis by simp
next
  case (ClickHold ds)
  with assms heapInv_handleHoldButton [of s ds s'] show ?thesis by auto
next
  case ClickFlip
  with assms heapInv_handleRotate [of L s s'] show ?thesis by auto
next
  case ClickFlipHold
  with assms heapInv_handleRotateHold [of L s] show ?thesis by auto
next
  case ClickMenu
  with assms show ?thesis by (auto simp: heapInv_def)
next
  case Timeout
  with assms heapInv_timeoutFires [of s L] show ?thesis by auto
qed

lemma blockCount_nonneg: "binaryMatrix (matrix piece) \<Longrightarrow> 0 \<le> blockCount piece"
  by (simp add: blockCount_binary)

lemma session_handlePlacePiece:
  assumes "logicOk L" and "binaryMatrix (matrix piece)" and "sessionInv s"
    and "seenCombo c = combo s" and "seenHighScore c = highScore s"
  shows "sessionInv (handlePlacePiece L c s piece x y src ds) \<and>
         score s \<le> score (handlePlacePiece L c s piece x y src ds) \<and>
         highScore s \<le> highScore (handlePlacePiece L c s piece x y src ds)"
proof -
  let ?lc = "turnLinesCleared L c piece x y"
  let ?line = "if ?lc > 0 then calculateScore L ?lc (seenCombo c) else 0"
  from assms(1,3,4) have "0 \<le> ?line"
    by (simp add: logicOk_def sessionInv_def)
  moreover from assms(2) have "0 \<le> blockCount piece * 10"
    by (simp add: blockCount_nonneg)
  moreover have "score (handlePlacePiece L c s piece x y src ds) =
      score s + blockCount piece * 10 + ?line"
    by (rule handlePlacePiece_score)
  ultimately show ?thesis
    using assms(3,5)
    by (simp add: sessionInv_def handlePlacePiece_highScore handlePlacePiece_keys
        handlePlacePiece_combo)
qed

lemma frame_handleHoldDrop:
  "handleHoldDrop c s p src ds = Inr s' \<Longrightarrow>
   score s' = score s \<and> highScore s' = highScore s \<and> keys s' = keys s \<and> combo s' = combo s \<and>
   dragState s' = dragState s \<and> listener s' = listener s"
  by (auto simp: handleHoldDrop_def Let_def split: Source.splits option.splits sum.splits if_splits)

lemma session_registerListeners [simp]:
  "sessionInv (registerListeners s) = sessionInv s"
  "score (registerListeners s) = score s"
  "highScore (registerListeners s) = highScore s"
  by (simp_all add: sessionInv_def registerListeners_def)

lemma session_rerender [simp]:
  "sessionInv (rerender b s) = sessionInv s"
  "score (rerender b s) = score s"
  "highScore (rerender b s) = highScore s"
  by (simp_all add: rerender_def)

lemma session_handlePointerUp:
  assumes "logicOk L" and "heapInv s" and "sessionInv s" and "listenerInv s"
    and "handlePointerUp L s ds = Inr s'"
  shows "sessionInv s' \<and> score s \<le> score s' \<and> highScore s \<le> highScore s'"
proof (cases "dragState s")
  case None
  with assms show ?thesis by (simp add: handlePointerUp_def)
next
  case (Some d)
  with assms(2) have bin: "binaryMatrix (matrix (heap s (dragPiece d)))"
    by (simp add: heapInv_def)
  from Some assms(4) have fresh: "seenCombo (listener s) = combo s"
    "seenHighScore (listener s) = highScore s"
    by (simp_all add: listenerInv_def)
  show ?thesis
  proof (cases "dropPreview s")
    case (Some xy)
    with \<open>dragState s = Some d\<close> assms(5)
    have "s' = (handlePlacePiece L (listener s) s (heap s (dragPiece d)) (fst xy) (snd xy)
                  (sourceIndex d) ds)
                 \<lparr> dragState := None, dropPreview := None, isHoveringHold := False \<rparr>"
      by (auto simp: handlePointerUp_def Let_def split_beta)
    with session_handlePlacePiece [OF assms(1) bin assms(3) fresh,
        of "fst xy" "snd xy" "sourceIndex d" ds]
    show ?thesis
      by (simp add: sessionInv_def)
  next
    case None
    show ?thesis
    proof (cases "isHoveringHold s")
      case False
      with None \<open>dragState s = Some d\<close> assms(3,5) show ?thesis
        by (auto simp: handlePointerUp_def Let_def sessionInv_def)
    next
      case True
      with None \<open>dragState s = Some d\<close> assms(5)
      obtain t where t: "handleHoldDrop (listener s) s (Some (dragPiece d)) (sourceIndex d) ds
                           = Inr t"
        and s': "s' = t\<lparr> dragState := None, dropPreview := None, isHoveringHold := False \<rparr>"
        by (auto simp: handlePointerUp_def Let_def split: sum.splits)
      from frame_handleHoldDrop [OF t] assms(3) show ?thesis
        unfolding s' by (simp add: sessionInv_def)
    qed
  qed
qed

lemma session_step:
  assumes "logicOk L" and "heapInv s" and "sessionInv s" and "listenerInv s"
    and "step L s e = Inr s'"
  shows "sessionInv s' \<and> highScore s \<le> highScore s' \<and> (\<not> startsGame e \<longrightarrow> score s \<le> score s')"
proof (cases e)
  case (ClickStart ds)
  with assms show ?thesis
    by (auto simp: sessionInv_def startGame_fields rerender_def registerListeners_def)
next
  case (PointerDown src)
  with assms show ?thesis
    by (cases src)
      (auto simp: sessionInv_def handleDragStart_def alloc_def rerender_def
        registerListeners_def split: option.splits if_splits)
next
  case (PointerMove t)
  with assms show ?thesis
    by (auto simp: sessionInv_def handlePointerMove_def rerender_def registerListeners_def
        split: option.splits PointerTarget.splits)
next
  case (PointerUp ds)
  with assms(5) obtain t where t: "handlePointerUp L s ds = Inr t"
    and s': "s' = rerender (dragState s \<noteq> None) t"
    by (auto split: sum.splits)
  from session_handlePointerUp [OF assms(1-4) t] s' PointerUp show ?thesis by simp
next
  case (ClickHold ds)
  with assms(5) have "handleHoldButton s ds = Inr s'" by simp
  then have "score s' = score s \<and> highScore s' = highScore s \<and> keys s' = keys s \<and> combo s' = combo s"
    by (auto simp: handleHoldButton_def split: option.splits dest: frame_handleHoldDrop)
  with assms(3) ClickHold show ?thesis by (simp add: sessionInv_def)
next
  case ClickFlip
  with assms show ?thesis
    by (auto simp: sessionInv_def handleRotate_def arrayGet_def Let_def COST_ROTATE_def
        split: option.splits if_splits)
next
  case ClickFlipHold
  with assms show ?thesis
    by (auto simp: sessionInv_def handleRotateHold_def alloc_def Let_def COST_ROTATE_def
        split: option.splits if_splits)
next
  case ClickMenu
  with assms show ?thesis by (auto simp: sessionInv_def)
next
  case Timeout
  with assms show ?thesis
    by (auto simp: sessionInv_def timeoutFires_def Let_def split: list.splits)
qed

lemma listenerInv_registerListeners: "listenerInv (registerListeners s)"
  by (simp add: listenerInv_def registerListeners_def render_def)

lemma listenerInv_keep:
  "listenerInv s \<Longrightarrow> dragState s' = dragState s \<Longrightarrow> listener s' = listener s \<Longrightarrow>
   combo s' = combo s \<Longrightarrow> highScore s' = highScore s \<Longrightarrow> listenerInv s'"
  by (simp add: listenerInv_def)

lemma listenerInv_step:
  assumes "listenerInv s" and "step L s e = Inr s'"
  shows "listenerInv s'"
proof (cases e)
  case (ClickStart ds)
  with assms show ?thesis
    by (auto simp: rerender_def listenerInv_registerListeners)
next
  case (PointerDown src)
  with assms show ?thesis
    by (cases src)
      (auto simp: rerender_def listenerInv_registerListeners handleDragStart_def
        split: option.splits if_splits)
next
  case (PointerMove t)
  with assms show ?thesis
    by (cases "dragState s")
      (auto simp: rerender_def listenerInv_registerListeners handlePointerMove_def)
next
  case (PointerUp ds)
  with assms show ?thesis
    by (cases "dragState s")
      (auto simp: rerender_def listenerInv_registerListeners handlePointerUp_def
        split: sum.splits)
next
  case (ClickHold ds)
  with assms(2) have "handleHoldButton s ds = Inr s'" by simp
  then have "dragState s' = dragState s \<and> listener s' = listener s \<and>
             combo s' = combo s \<and> highScore s' = highScore s"
    by (auto simp: handleHoldButton_def split: option.splits dest: frame_handleHoldDrop)
  with assms(1) show ?thesis by (auto intro: listenerInv_keep)
next
  case ClickFlip
  with assms show ?thesis
    by (auto simp: handleRotate_def arrayGet_def Let_def intro: listenerInv_keep
        split: option.splits if_splits)
next
  case ClickFlipHold
  with assms show ?thesis
    by (auto simp: handleRotateHold_def alloc_def Let_def intro: listenerInv_keep
        split: option.splits if_splits)
next
  case ClickMenu
  with assms show ?thesis by (auto intro: listenerInv_keep)
next
  case Timeout
  with assms show ?thesis
    by (auto simp: timeoutFires_def Let_def intro: listenerInv_keep split: list.splits)
qed

lemma stateInv_step:
  assumes "logicOk L" and "validEvent e" and "stateInv s"
  shows "\<exists>s'. step L s e = Inr s' \<and> stateInv s' \<and> highScore s \<le> highScore s' \<and>
              (\<not> startsGame e \<longrightarrow> score s \<le> score s')"
proof -
  from assms(3) have p: "poolInv s" and h: "heapInv s" and c: "sessionInv s"
    and l: "listenerInv s"
    by (simp_all add: stateInv_def)
  from poolInv_step [OF p] obtain s' where s': "step L s e = Inr s'" "poolInv s'"
    by blast
  from heapInv_step [OF assms(1,2) h s'(1)] session_step [OF assms(1) h c l s'(1)]
    listenerInv_step [OF l s'(1)] s'
  show ?thesis by (auto simp: stateInv_def)
qed

lemma stateInv_run:
  "logicOk L \<Longrightarrow> list_all validEvent es \<Longrightarrow> stateInv s \<Longrightarrow>
   \<exists>s'. run L s es = Inr s' \<and> stateInv s'"
proof (induction es arbitrary: s)
  case Nil
  then show ?case by simp
next
  case (Cons e es)
  from Cons.prems have e: "validEvent e" and es: "list_all validEvent es" by simp_all
  from stateInv_step [OF Cons.prems(1) e Cons.prems(3)]
  obtain s1 where s1: "step L s e = Inr s1" "stateInv s1" by blast
  from Cons.IH [OF Cons.prems(1) es s1(2)] s1(1) show ?case by simp
qed

lemma stateInv_initialState: "0 \<le> hs \<Longrightarrow> stateInv (initialState hs)"
  by (simp add: stateInv_def poolInv_def heapInv_def sessionInv_def listenerInv_def
      initialState_def)

lemma binaryMatrix_transpose:
  assumes "binaryMatrix m"
  shows "binaryMatrix (transpose m)"
proof -
  have "v = 0 \<or> v = 1" if row: "row \<in> set (transpose m)" and v: "v \<in> set row" for row v
  proof -
    from row obtain i where i: "i < length (transpose m)" "row = transpose m ! i"
      by (auto simp: in_set_conv_nth)
    with v have "v \<in> set (map (\<lambda>xs. xs ! i) (filter (\<lambda>ys. i < length ys) m))"
      by (simp add: nth_transpose)
    then obtain xs where "xs \<in> set m" "i < length xs" "v = xs ! i"
      by auto
    with assms show ?thesis
      by (auto simp: binaryMatrix_def list_all_iff)
  qed
  then show ?thesis
    by (auto simp: binaryMatrix_def list_all_iff)
qed

lemma binaryMatrix_rotate_spec: "binaryMatrix m \<Longrightarrow> binaryMatrix (rotate_spec m)"
  using binaryMatrix_transpose [of m]
  by (auto simp: rotate_spec_def binaryMatrix_def list_all_iff)

lemma logicOk_demoLogic: "logicOk demoLogic"
  by (simp add: logicOk_def demoLogic_def specLogic_def lineClearScore_spec_def
      binaryMatrix_rotate_spec)

lemma validDraws_line2Draws: "validDraws line2Draws"
  by (simp add: validDraws_def line2Draws_def line2Draw_def validDraw_def SHAPE_TEMPLATES_def
      COLORS_def)

lemma line2_fits_empty: "canPlace_spec createEmptyGrid (generateRandomShape line2Draw) 0 0"
  by code_simp

lemma line2_clears_none:
  "snd (clearCompletedLines_spec
          (applyPlacement_spec createEmptyGrid (generateRandomShape line2Draw) 0 0)) = 0"
  by code_simp

section \<open>The session invariants\<close>

text \<open>
  C9: from the state of the mounted component, after any sequence of events every further
  event is handled without fault and leaves a state in which the score is not negative,
  the high score is at least the score, the keys are not negative and the combo is at
  least 1; the high score never decreases, and the score never decreases within a
  session, that is under every event but \<^verbatim>\<open>startGame\<close>, which begins a new session at score
  0. The missing game logic is assumed to return a line score that is not negative and to
  rotate binary matrices into binary matrices, and the stored high score not to be
  negative.
\<close>

theorem C9_session_invariants:
  assumes "logicOk L" and "list_all validEvent es" and "validEvent e" and "0 \<le> hs"
  shows "\<exists>s s'. run L (initialState hs) es = Inr s \<and> step L s e = Inr s' \<and>
           0 \<le> score s' \<and> score s' \<le> highScore s' \<and> 0 \<le> keys s' \<and> 1 \<le> combo s' \<and>
           highScore s \<le> highScore s' \<and>
           (\<not> startsGame e \<longrightarrow> score s \<le> score s')"
proof -
  from stateInv_run [OF assms(1,2) stateInv_initialState [OF assms(4)]]
  obtain s where s: "run L (initialState hs) es = Inr s" "stateInv s" by blast
  from stateInv_step [OF assms(1,3) s(2)]
  obtain s' where "step L s e = Inr s'" "stateInv s'" "highScore s \<le> highScore s'"
    "\<not> startsGame e \<longrightarrow> score s \<le> score s'" by blast
  with s(1) show ?thesis
    by (auto simp: stateInv_def sessionInv_def)
qed

theorem C9_session_invariants_witness:
  "logicOk demoLogic \<and>
   list_all validEvent [ClickStart line2Draws, PointerDown (Pool 0), PointerMove (OverGrid 0 0)] \<and>
   validEvent (PointerUp line2Draws) \<and> (0::int) \<le> 0 \<and>
   (\<exists>s s'. run demoLogic (initialState 0)
              [ClickStart line2Draws, PointerDown (Pool 0), PointerMove (OverGrid 0 0)] = Inr s \<and>
           step demoLogic s (PointerUp line2Draws) = Inr s' \<and>
           score s = 0 \<and> score s' = 20 \<and> highScore s' = 20 \<and> keys s' = 3 \<and> combo s' = 1 \<and>
           0 \<le> score s' \<and> score s' \<le> highScore s' \<and> 0 \<le> keys s' \<and> 1 \<le> combo s' \<and>
           highScore s \<le> highScore s' \<and>
           (\<not> startsGame (PointerUp line2Draws) \<longrightarrow> score s \<le> score s'))"
proof -
  have es: "list_all validEvent
      [ClickStart line2Draws, PointerDown (Pool 0), PointerMove (OverGrid 0 0)]"
    by (simp add: validDraws_line2Draws)
  have e: "validEvent (PointerUp line2Draws)"
    by (simp add: validDraws_line2Draws)
  have hs: "(0::int) \<le> 0" by simp
  from C9_session_invariants [OF logicOk_demoLogic es e hs]
  obtain s s' where r: "run demoLogic (initialState 0)
        [ClickStart line2Draws, PointerDown (Pool 0), PointerMove (OverGrid 0 0)] = Inr s"
    and st: "step demoLogic s (PointerUp line2Draws) = Inr s'"
    and inv: "0 \<le> score s' \<and> score s' \<le> highScore s' \<and> 0 \<le> keys s' \<and> 1 \<le> combo s' \<and>
           highScore s \<le> highScore s' \<and>
           (\<not> startsGame (PointerUp line2Draws) \<longrightarrow> score s \<le> score s')"
    by blast
  from r st line2_fits_empty line2_clears_none
  have "score s = 0 \<and> score s' = 20 \<and> highScore s' = 20 \<and> keys s' = 3 \<and> combo s' = 1"
    by (auto simp: handler_defs startGame_def initialState_def demoLogic_def specLogic_def
        GRID_SIZE_def line2Draws_def blockCount_def generateRandomShape_def line2Draw_def
        SHAPE_TEMPLATES_def COLORS_def)
  with r st inv logicOk_demoLogic es e show ?thesis
    by blast
qed

section \<open>The pool: refill\<close>

text \<open>
  C8 (the code at a failing input): the pool holds one dot, the hold slot is empty. The
  dot is dragged over the board; during the drag the hold button is clicked, which moves
  the dot into the hold slot and, the pool being empty now, refills the pool with a fresh
  batch of three Line 2 shapes at the addresses 5, 6 and 7. The click changes no dependency
  of the effect, so the window's listeners still see the pool with the one dot and the
  empty hold slot. On pointer-up \<^verbatim>\<open>handlePlacePiece\<close> filters the pool its closure sees,
  finds it empty and calls \<^verbatim>\<open>spawnPieces\<close>: the pool of three shapes, none of which was
  placed or held, is replaced by another fresh batch, at the addresses 8, 9 and 10.
\<close>

theorem C8_pool_refilled_though_not_empty:
  "(case run demoLogic (demoState createEmptyGrid [1] None 0)
           [PointerDown (Pool 0), PointerMove (OverGrid 0 0), ClickHold line2Draws] of
      Inl f \<Rightarrow> False
    | Inr s \<Rightarrow>
        availablePieces s = [5, 6, 7] \<and> holdPiece s = Some 1 \<and>
        seenPieces (listener s) = [1] \<and> seenHold (listener s) = None) \<and>
   (case run demoLogic (demoState createEmptyGrid [1] None 0)
           [PointerDown (Pool 0), PointerMove (OverGrid 0 0), ClickHold line2Draws,
            PointerUp dotDraws] of
      Inl f \<Rightarrow> False
    | Inr s \<Rightarrow>
        availablePieces s = [8, 9, 10] \<and> holdPiece s = Some 1 \<and>
        map (heap s) (availablePieces s) =
          [generateRandomShape dotDraw, generateRandomShape dotDraw, generateRandomShape dotDraw])"
proof (intro conjI)
  show "(case run demoLogic (demoState createEmptyGrid [1] None 0)
           [PointerDown (Pool 0), PointerMove (OverGrid 0 0), ClickHold line2Draws] of
      Inl f \<Rightarrow> False
    | Inr s \<Rightarrow>
        availablePieces s = [5, 6, 7] \<and> holdPiece s = Some 1 \<and>
        seenPieces (listener s) = [1] \<and> seenHold (listener s) = None)"
    using dot_fits_empty
    by (simp add: handler_defs demoState_def demoHeap_def demoLogic_def specLogic_def
        GRID_SIZE_def line2Draws_def)
  show "(case run demoLogic (demoState createEmptyGrid [1] None 0)
           [PointerDown (Pool 0), PointerMove (OverGrid 0 0), ClickHold line2Draws,
            PointerUp dotDraws] of
      Inl f \<Rightarrow> False
    | Inr s \<Rightarrow>
        availablePieces s = [8, 9, 10] \<and> holdPiece s = Some 1 \<and>
        map (heap s) (availablePieces s) =
          [generateRandomShape dotDraw, generateRandomShape dotDraw, generateRandomShape dotDraw])"
    using dot_fits_empty dot_on_empty_clears_none
    by (simp add: handler_defs demoState_def demoHeap_def demoLogic_def specLogic_def
        GRID_SIZE_def line2Draws_def dotDraws_def)
qed

end
